theory Spec2Isabelle
  imports Main "HOL-Library.Word" "HOL-Library.Sublist"
begin

section \<open>JavaScript strings and values\<close>

text \<open>
  A JavaScript string is a sequence of UTF-16 code units. The regular expressions of the
  output panel distinguish the line terminators U+000A, U+000D, U+2028 and U+2029, so the
  code units are kept at their full width.
\<close>

type_synonym unit16 = "16 word"
type_synonym jsstring = "unit16 list"

definition js :: "string \<Rightarrow> jsstring" where
  "js s = map (\<lambda>c. of_nat (of_char c)) s"

text \<open>
  Decimal rendering of a non-negative integer, as a template literal renders
  \<^verbatim>\<open>response.status\<close>.
\<close>

fun dec :: "nat \<Rightarrow> jsstring" where
  "dec n = (if n < 10 then [of_nat (48 + n)] else dec (n div 10) @ [of_nat (48 + n mod 10)])"

declare dec.simps [simp del]

text \<open>
  A Number is seen by this program only through its truthiness and through its ToString
  image (in a template literal or in JSX text); it is represented by those two
  observations, and no floating-point arithmetic is modelled.
\<close>

datatype jsnumber = JSNumber (is_zero_or_nan: bool) (number_text: jsstring)

text \<open>
  What a \<^verbatim>\<open>catch\<close> clause can receive. The text of an error raised by the runtime
  itself (a TypeError on a property read of \<^verbatim>\<open>null\<close>, say) is chosen by the engine.
\<close>

datatype message = Text jsstring | EngineDefined

datatype thrown = ErrorObj message | NonError

section \<open>Data model (services/api)\<close>

record prompt =
  prompt_id :: jsstring
  prompt_name :: jsstring
  prompt_description :: jsstring

record parse_data =
  markdown :: jsstring
  rawText :: jsstring

record parse_metadata =
  storage_key :: jsstring
  model :: jsstring
  processing_time_ms :: jsnumber
  request_id :: jsstring
  file_size_kb :: jsnumber

text \<open>
  A \<^verbatim>\<open>File\<close> of the browser: \<open>file_ident\<close> stands for the identity of the object
  (React compares effect dependencies with \<^verbatim>\<open>Object.is\<close>), the other fields are the
  properties the components read.
\<close>

record file_obj =
  file_ident :: nat
  file_name :: jsstring
  file_size :: nat
  file_type :: jsstring

section \<open>API client (services/api)\<close>

text \<open>
  The value \<^verbatim>\<open>response.json()\<close> resolves to. \<open>JUndefined\<close> is never in a parsed
  body; property reads produce it. An object keeps its members in the order of the text,
  and a repeated key takes its last value, as \<^verbatim>\<open>JSON.parse\<close> has it.
\<close>

datatype jsval =
    JUndefined
  | JNull
  | JBool bool
  | JNum jsnumber
  | JStr jsstring
  | JArr "jsval list"
  | JObj "(jsstring \<times> jsval) list"

definition own_property :: "(jsstring \<times> jsval) list \<Rightarrow> jsstring \<Rightarrow> jsval" where
  "own_property members k = (case map_of (rev members) k of None \<Rightarrow> JUndefined | Some v \<Rightarrow> v)"

definition nullish :: "jsval \<Rightarrow> bool" where
  "nullish v = (v = JUndefined \<or> v = JNull)"

text \<open>
  \<^verbatim>\<open>v.detail\<close> and \<^verbatim>\<open>v.msg\<close> on a value that is neither null nor undefined:
  neither name is a property of a prototype, so only an object's own member can answer.
  The same holds of the other names this program reads from a parsed body,
  \<^verbatim>\<open>prompts\<close>, \<^verbatim>\<open>data\<close> and \<^verbatim>\<open>metadata\<close>.
\<close>

definition read_named :: "jsstring \<Rightarrow> jsval \<Rightarrow> jsval" where
  "read_named k v = (case v of JObj members \<Rightarrow> own_property members k | _ \<Rightarrow> JUndefined)"

text \<open>\<^verbatim>\<open>v[0]\<close> on a value that is neither null nor undefined.\<close>

definition read_first :: "jsval \<Rightarrow> jsval" where
  "read_first v =
     (case v of
        JArr xs \<Rightarrow> (case xs of [] \<Rightarrow> JUndefined | x # _ \<Rightarrow> x)
      | JStr s \<Rightarrow> (case s of [] \<Rightarrow> JUndefined | c # _ \<Rightarrow> JStr [c])
      | JObj members \<Rightarrow> own_property members (js ''0'')
      | _ \<Rightarrow> JUndefined)"

definition truthy :: "jsval \<Rightarrow> bool" where
  "truthy v =
     (case v of
        JUndefined \<Rightarrow> False
      | JNull \<Rightarrow> False
      | JBool b \<Rightarrow> b
      | JNum n \<Rightarrow> \<not> is_zero_or_nan n
      | JStr s \<Rightarrow> s \<noteq> []
      | JArr _ \<Rightarrow> True
      | JObj _ \<Rightarrow> True)"

fun join :: "jsstring \<Rightarrow> jsstring list \<Rightarrow> jsstring" where
  "join sep [] = []"
| "join sep [x] = x"
| "join sep (x # y # ys) = x @ sep @ join sep (y # ys)"

text \<open>
  ToString, as a template literal applies it. An object whose own member shadows
  \<^verbatim>\<open>toString\<close> has no callable conversion left (a parsed member is never a function,
  and \<^verbatim>\<open>Object.prototype.valueOf\<close> returns the object): the conversion throws a
  TypeError. An array joins its elements with a comma, null giving the empty string.
\<close>

fun convertible :: "jsval \<Rightarrow> bool" where
  "convertible (JObj members) = (map_of members (js ''toString'') = None)"
| "convertible (JArr xs) = list_all (\<lambda>x. x = JNull \<or> x = JUndefined \<or> convertible x) xs"
| "convertible _ = True"

fun to_text :: "jsval \<Rightarrow> jsstring" where
  "to_text JUndefined = js ''undefined''"
| "to_text JNull = js ''null''"
| "to_text (JBool b) = (if b then js ''true'' else js ''false'')"
| "to_text (JNum n) = number_text n"
| "to_text (JStr s) = s"
| "to_text (JArr xs) =
     join (js '','') (map (\<lambda>x. if x = JNull \<or> x = JUndefined then [] else to_text x) xs)"
| "to_text (JObj members) = js ''[object Object]''"

text \<open>
  A \<^verbatim>\<open>Response\<close>: \<open>json_result\<close> is what awaiting \<^verbatim>\<open>response.json()\<close> gives
  (a rejection when the body is not JSON); \<^verbatim>\<open>response.ok\<close> is derived from the
  status, as the Fetch standard defines it.
\<close>

record response =
  status :: nat
  statusText :: jsstring
  json_result :: "thrown + jsval"

definition ok :: "response \<Rightarrow> bool" where
  "ok r = (200 \<le> status r \<and> status r \<le> 299)"

text \<open>
  The interpolated expression \<^verbatim>\<open>error.detail?.[0]?.msg || 'Invalid input'\<close>, before
  its conversion to a string. A nullish \<^verbatim>\<open>error\<close> makes the first read throw; a
  nullish link of the optional chain makes the whole chain undefined.
\<close>

definition detail_msg :: "jsval \<Rightarrow> thrown + jsval" where
  "detail_msg error =
     (if nullish error then Inl (ErrorObj EngineDefined)
      else
        let detail = read_named (js ''detail'') error;
            msg = (if nullish detail then JUndefined
                   else if nullish (read_first detail) then JUndefined
                   else read_named (js ''msg'') (read_first detail))
        in Inr (if truthy msg then msg else JStr (js ''Invalid input'')))"

definition handleResponse :: "response \<Rightarrow> thrown + jsval" where
  "handleResponse r =
     (if \<not> ok r then
        (if status r = 422 then
           (case json_result r of
              Inl e \<Rightarrow> Inl e
            | Inr error \<Rightarrow>
                (case detail_msg error of
                   Inl e \<Rightarrow> Inl e
                 | Inr shown \<Rightarrow>
                     if convertible shown
                     then Inl (ErrorObj (Text (js ''Validation Error: '' @ to_text shown)))
                     else Inl (ErrorObj EngineDefined)))
         else Inl (ErrorObj (Text (js ''HTTP '' @ dec (status r) @ js '': '' @ statusText r))))
      else json_result r)"

text \<open>
  Requests. \<^verbatim>\<open>FormData.append\<close> adds an entry at the end of the form; the network is
  a parameter, a function from the request to what \<^verbatim>\<open>fetch\<close> settles to. Each
  operation of the client returns what its promise settles to together with the requests
  it has handed to \<^verbatim>\<open>fetch\<close>, in order.
\<close>

datatype form_value = FormFile file_obj | FormString jsstring

record request =
  req_url :: jsstring
  req_method :: jsstring
  req_body :: "(jsstring \<times> form_value) list option"

type_synonym network = "request \<Rightarrow> thrown + response"

definition API_BASE_URL :: "jsstring option \<Rightarrow> jsstring" where
  "API_BASE_URL env =
     (case env of
        None \<Rightarrow> js ''http://localhost:8000''
      | Some u \<Rightarrow> if u \<noteq> [] then u else js ''http://localhost:8000'')"

definition FormData_append :: "jsstring \<Rightarrow> form_value \<Rightarrow> (jsstring \<times> form_value) list \<Rightarrow> (jsstring \<times> form_value) list" where
  "FormData_append k v form = form @ [(k, v)]"

definition parseDocument_request :: "jsstring option \<Rightarrow> file_obj \<Rightarrow> jsstring \<Rightarrow> request" where
  "parseDocument_request env f promptId =
     (let formData = FormData_append (js ''promptId'') (FormString promptId)
                       (FormData_append (js ''file'') (FormFile f) [])
      in \<lparr>req_url = API_BASE_URL env @ js ''/api/v1/parse/'',
          req_method = js ''POST'',
          req_body = Some formData\<rparr>)"

definition parseDocument :: "network \<Rightarrow> jsstring option \<Rightarrow> file_obj \<Rightarrow> jsstring \<Rightarrow> (thrown + jsval) \<times> request list" where
  "parseDocument fetch env f promptId =
     (let sent = parseDocument_request env f promptId
      in ((case fetch sent of
             Inl e \<Rightarrow> Inl e
           | Inr r \<Rightarrow> handleResponse r),
          [sent]))"

definition getPrompts :: "network \<Rightarrow> jsstring option \<Rightarrow> (thrown + jsval) \<times> request list" where
  "getPrompts fetch env =
     (let sent = \<lparr>req_url = API_BASE_URL env @ js ''/api/v1/prompts/'',
                  req_method = js ''GET'', req_body = None\<rparr>
      in ((case fetch sent of
             Inl e \<Rightarrow> Inl e
           | Inr r \<Rightarrow>
               (case handleResponse r of
                  Inl e \<Rightarrow> Inl e
                | Inr body \<Rightarrow>
                    if nullish body then Inl (ErrorObj EngineDefined)
                    else Inr (read_named (js ''prompts'') body))),
          [sent]))"

definition healthCheck :: "network \<Rightarrow> jsstring option \<Rightarrow> (thrown + jsval) \<times> request list" where
  "healthCheck fetch env =
     (let sent = \<lparr>req_url = API_BASE_URL env @ js ''/'',
                  req_method = js ''GET'', req_body = None\<rparr>
      in ((case fetch sent of
             Inl e \<Rightarrow> Inl e
           | Inr r \<Rightarrow> handleResponse r),
          [sent]))"

section \<open>Upload and selection panel (Sidebar)\<close>

record sidebar_state =
  sidebar_selectedFile :: "file_obj option"
  selectedPrompt :: jsstring
  prompts :: "prompt list"
  loadingPrompts :: bool

text \<open>The \<^verbatim>\<open>disabled\<close> attribute of the Parse button; \<open>loading\<close> is the \<^verbatim>\<open>isLoading\<close> prop.\<close>

definition parse_disabled :: "bool \<Rightarrow> sidebar_state \<Rightarrow> bool" where
  "parse_disabled loading sb =
     (sidebar_selectedFile sb = None \<or> selectedPrompt sb = [] \<or> loading \<or> loadingPrompts sb)"

text \<open>The call of \<^verbatim>\<open>onParse\<close> that \<^verbatim>\<open>handleParseClick\<close> makes, if it makes one.\<close>

definition handleParseClick :: "sidebar_state \<Rightarrow> (file_obj \<times> jsstring) option" where
  "handleParseClick sb =
     (case sidebar_selectedFile sb of
        None \<Rightarrow> None
      | Some f \<Rightarrow> if selectedPrompt sb \<noteq> [] then Some (f, selectedPrompt sb) else None)"

text \<open>A click on the button: a disabled button dispatches no click event.\<close>

definition parse_button_click :: "bool \<Rightarrow> sidebar_state \<Rightarrow> (file_obj \<times> jsstring) option" where
  "parse_button_click loading sb =
     (if parse_disabled loading sb then None else handleParseClick sb)"

section \<open>Orchestrator (OCRInterface)\<close>

text \<open>
  \<open>outputData\<close> is declared \<^verbatim>\<open>ParseResponse | null\<close>. What is stored there is the
  value \<^verbatim>\<open>parseDocument\<close> resolved with, which is the parsed body of the response,
  cast to \<^verbatim>\<open>ParseResponse\<close> and never checked: the state holds a JSON value,
  \<open>JNull\<close> for \<^verbatim>\<open>null\<close>.
\<close>

record ocr_state =
  selectedFile :: "file_obj option"
  isLoading :: bool
  hasOutput :: bool
  outputData :: jsval

datatype toast_variant = Default | Destructive

record toast =
  toast_title :: jsstring
  toast_description :: message
  toast_variant :: toast_variant

definition initial_ocr_state :: ocr_state where
  "initial_ocr_state =
     \<lparr>selectedFile = None, isLoading = False, hasOutput = False, outputData = JNull\<rparr>"

definition handleFileSelect :: "file_obj \<Rightarrow> ocr_state \<Rightarrow> ocr_state" where
  "handleFileSelect f st = st\<lparr>selectedFile := Some f, hasOutput := False\<rparr>"

text \<open>
  \<^verbatim>\<open>handleParse\<close> is asynchronous. Its synchronous prefix runs up to the
  \<^verbatim>\<open>await\<close>; the continuation runs once \<^verbatim>\<open>parseDocument\<close> has settled,
  with the \<^verbatim>\<open>try\<close>, \<^verbatim>\<open>catch\<close> and \<^verbatim>\<open>finally\<close> blocks in
  that order. The continuation returns the toast it raises as well.
\<close>

definition handleParse_begin :: "ocr_state \<Rightarrow> ocr_state" where
  "handleParse_begin st = st\<lparr>isLoading := True, hasOutput := False, outputData := JNull\<rparr>"

definition handleParse_settle :: "thrown + jsval \<Rightarrow> ocr_state \<Rightarrow> ocr_state \<times> toast" where
  "handleParse_settle outcome st =
     (case outcome of
        Inr result \<Rightarrow>
          (st\<lparr>outputData := result, hasOutput := True, isLoading := False\<rparr>,
           \<lparr>toast_title = js ''Success!'',
            toast_description = Text (js ''Document parsed successfully''),
            toast_variant = Default\<rparr>)
      | Inl error \<Rightarrow>
          (st\<lparr>isLoading := False\<rparr>,
           \<lparr>toast_title = js ''Parse Error'',
            toast_description =
              (case error of ErrorObj m \<Rightarrow> m | NonError \<Rightarrow> Text (js ''Failed to parse document'')),
            toast_variant = Destructive\<rparr>))"

text \<open>
  While the request is pending the user can still pick files: the sidebar's upload input
  and example button are not disabled by the loading flag. A run of the handler is
  therefore the prefix, any number of file selections (\<open>picked\<close>), and the continuation
  with what \<^verbatim>\<open>apiService.parseDocument(file, promptId)\<close> settled to.
\<close>

definition handleParse :: "network \<Rightarrow> jsstring option \<Rightarrow> file_obj list \<Rightarrow> file_obj \<Rightarrow> jsstring \<Rightarrow> ocr_state \<Rightarrow> ocr_state \<times> toast" where
  "handleParse fetch env picked f promptId st =
     handleParse_settle (fst (parseDocument fetch env f promptId))
       (fold handleFileSelect picked (handleParse_begin st))"

text \<open>
  The props handed to the output panel: \<^verbatim>\<open>outputData?.data || null\<close> and
  \<^verbatim>\<open>outputData?.metadata || null\<close>.
\<close>

definition passed_outputData :: "ocr_state \<Rightarrow> jsval" where
  "passed_outputData st =
     (let v = (if nullish (outputData st) then JUndefined
               else read_named (js ''data'') (outputData st))
      in if truthy v then v else JNull)"

definition passed_metadata :: "ocr_state \<Rightarrow> jsval" where
  "passed_metadata st =
     (let v = (if nullish (outputData st) then JUndefined
               else read_named (js ''metadata'') (outputData st))
      in if truthy v then v else JNull)"

section \<open>Output panel (OutputPanel)\<close>

text \<open>The props as \<^verbatim>\<open>OutputPanelProps\<close> declares them.\<close>

record output_props =
  prop_hasOutput :: bool
  prop_isLoading :: bool
  prop_outputData :: "parse_data option"
  prop_metadata :: "parse_metadata option"

definition sampleMarkdown :: jsstring where
  "sampleMarkdown = concat
     [js ''# AMIR ABDALLAH\<newline>'',
      js ''\<newline>'',
      js ''**Contact Information**\<newline>'',
      js ''- Email: amir.abdallah@email.com\<newline>'',
      js ''- Phone: +216 XX XXX XXX\<newline>'',
      js ''- Location: Sfax, Tunisia\<newline>'',
      js ''\<newline>'',
      js ''## EDUCATION\<newline>'',
      js ''\<newline>'',
      js ''**National School of Electronics and Telecommunications of Sfax**\<newline>'',
      js ''*Engineering Degree in Telecommunications* | 2019 - 2022\<newline>'',
      js ''\<newline>'',
      js ''## EXPERIENCE\<newline>'',
      js ''\<newline>'',
      js ''### Proxym AI Software Engineering Intern\<newline>'',
      js ''*June 2022 - August 2022*\<newline>'',
      js ''- Developed machine learning models for document processing\<newline>'',
      js ''- Implemented OCR solutions using Python and TensorFlow\<newline>'',
      js ''- Collaborated with cross-functional teams on AI projects\<newline>'',
      js ''\<newline>'',
      js ''### Junior Developer - TechCorp\<newline>'',
      js ''*September 2022 - Present*\<newline>'',
      js ''- Full-stack web development using React and Node.js\<newline>'',
      js ''- Database design and optimization with PostgreSQL\<newline>'',
      js ''- API development and integration\<newline>'',
      js ''\<newline>'',
      js ''## SKILLS\<newline>'',
      js ''\<newline>'',
      js ''**Programming Languages:** Python, JavaScript, TypeScript, Java\<newline>'',
      js ''**Frameworks:** React, Node.js, Express, Django\<newline>'',
      js ''**Databases:** PostgreSQL, MongoDB, Redis\<newline>'',
      js ''**Tools:** Git, Docker, AWS, Jenkins\<newline>'',
      js ''\<newline>'',
      js ''## PROJECTS\<newline>'',
      js ''\<newline>'',
      js ''### Document Processing System\<newline>'',
      js ''Built an OCR system for automated document analysis\<newline>'',
      js ''*Technologies: Python, OpenCV, Tesseract*\<newline>'',
      js ''\<newline>'',
      js ''### E-commerce Platform\<newline>'',
      js ''Full-stack application with payment integration\<newline>'',
      js ''*Technologies: React, Node.js, Stripe API*'']"

definition sampleRawText :: jsstring where
  "sampleRawText = concat
     [js ''AMIR ABDALLAH\<newline>'',
      js ''\<newline>'',
      js ''Email: amir.abdallah@email.com | Phone: +216 XX XXX XXX\<newline>'',
      js ''Location: Sfax, Tunisia\<newline>'',
      js ''\<newline>'',
      js ''EDUCATION\<newline>'',
      js ''\<newline>'',
      js ''National School of Electronics and Telecommunications of Sfax\<newline>'',
      js ''Engineering Degree in Telecommunications\<newline>'',
      js ''2019 - 2022\<newline>'',
      js ''\<newline>'',
      js ''EXPERIENCE\<newline>'',
      js ''\<newline>'',
      js ''Proxym AI Software Engineering Intern\<newline>'',
      js ''June 2022 - August 2022\<newline>'',
      [0x2022] @ js '' Developed machine learning models for document processing\<newline>'',
      [0x2022] @ js '' Implemented OCR solutions using Python and TensorFlow\<newline>'',
      [0x2022] @ js '' Collaborated with cross-functional teams on AI projects\<newline>'',
      js ''\<newline>'',
      js ''Junior Developer - TechCorp\<newline>'',
      js ''September 2022 - Present\<newline>'',
      [0x2022] @ js '' Full-stack web development using React and Node.js\<newline>'',
      [0x2022] @ js '' Database design and optimization with PostgreSQL\<newline>'',
      [0x2022] @ js '' API development and integration\<newline>'',
      js ''\<newline>'',
      js ''SKILLS\<newline>'',
      js ''\<newline>'',
      js ''Programming Languages: Python, JavaScript, TypeScript, Java\<newline>'',
      js ''Frameworks: React, Node.js, Express, Django\<newline>'',
      js ''Databases: PostgreSQL, MongoDB, Redis\<newline>'',
      js ''Tools: Git, Docker, AWS, Jenkins\<newline>'',
      js ''\<newline>'',
      js ''PROJECTS\<newline>'',
      js ''\<newline>'',
      js ''Document Processing System\<newline>'',
      [0x2022] @ js '' Built an OCR system for automated document analysis\<newline>'',
      [0x2022] @ js '' Technologies: Python, OpenCV, Tesseract\<newline>'',
      js ''\<newline>'',
      js ''E-commerce Platform\<newline>'',
      [0x2022] @ js '' Full-stack application with payment integration\<newline>'',
      [0x2022] @ js '' Technologies: React, Node.js, Stripe API'']"

text \<open>\<^verbatim>\<open>outputData?.markdown || sampleMarkdown\<close>: the empty string is falsy.\<close>

definition markdownContent :: "output_props \<Rightarrow> jsstring" where
  "markdownContent p =
     (case prop_outputData p of
        None \<Rightarrow> sampleMarkdown
      | Some d \<Rightarrow> if markdown d \<noteq> [] then markdown d else sampleMarkdown)"

definition rawTextContent :: "output_props \<Rightarrow> jsstring" where
  "rawTextContent p =
     (case prop_outputData p of
        None \<Rightarrow> sampleRawText
      | Some d \<Rightarrow> if rawText d \<noteq> [] then rawText d else sampleRawText)"

subsection \<open>The substitutions of \<^verbatim>\<open>formatMarkdownForDisplay\<close>\<close>

text \<open>
  Each \<^verbatim>\<open>replace\<close> has a global regular expression: the text is scanned from the left,
  every match is replaced, and the scan goes on after the match. Without the
  \<^verbatim>\<open>s\<close> flag the dot matches any code unit but a line terminator.

  \<^item> \<open>replace_newlines\<close> is \<^verbatim>\<open>/\n/g\<close>.
  \<^item> \<open>find_close d\<close> matches \<^verbatim>\<open>(.*?)D\<close> for a literal \<open>D\<close>: the lazy star takes
    the fewest units, none of them a line terminator, after which \<open>D\<close> follows; it
    returns the capture and the text after the match.
  \<^item> \<open>replace_delimited d\<close> is \<^verbatim>\<open>/D(.*?)D/g\<close> with the replacement
    \<^verbatim>\<open>open$1close\<close>. The delimiters of the source are not empty; for an empty one the
    text is left as it is.
  \<^item> \<open>replace_heading marker\<close> is \<^verbatim>\<open>/^M(.*$)/gm\<close>: with the \<^verbatim>\<open>m\<close> flag the
    caret matches at the start of the text and after a line terminator (\<open>at_start\<close>),
    the greedy star runs to the next line terminator or the end of the text, where the
    dollar matches.
\<close>

definition is_line_terminator :: "unit16 \<Rightarrow> bool" where
  "is_line_terminator c = (c = 0x000A \<or> c = 0x000D \<or> c = 0x2028 \<or> c = 0x2029)"

definition replace_newlines :: "jsstring \<Rightarrow> jsstring" where
  "replace_newlines s = concat (map (\<lambda>c. if c = 0x000A then js ''<br/>'' else [c]) s)"

fun find_close :: "jsstring \<Rightarrow> jsstring \<Rightarrow> (jsstring \<times> jsstring) option" where
  "find_close d [] = (if d = [] then Some ([], []) else None)"
| "find_close d (x # xs) =
     (if prefix d (x # xs) then Some ([], drop (length d) (x # xs))
      else if is_line_terminator x then None
      else (case find_close d xs of
              None \<Rightarrow> None
            | Some (captured, rest) \<Rightarrow> Some (x # captured, rest)))"

function replace_delimited :: "jsstring \<Rightarrow> jsstring \<Rightarrow> jsstring \<Rightarrow> jsstring \<Rightarrow> jsstring" where
  "replace_delimited d open_tag close_tag [] = []"
| "replace_delimited d open_tag close_tag (x # xs) =
     (if d \<noteq> [] \<and> prefix d (x # xs) then
        (case find_close d (drop (length d) (x # xs)) of
           Some (captured, rest) \<Rightarrow> open_tag @ captured @ close_tag @ replace_delimited d open_tag close_tag rest
         | None \<Rightarrow> x # replace_delimited d open_tag close_tag xs)
      else x # replace_delimited d open_tag close_tag xs)"
  by pat_completeness auto
termination
proof (relation "measure (\<lambda>(d, open_tag, close_tag, s). length s)")
  show "wf (measure (\<lambda>(d, open_tag, close_tag, s). length s))" by simp
next
  fix d open_tag close_tag :: jsstring and x xs p captured rest
  assume d: "d \<noteq> [] \<and> prefix d (x # xs)"
    and f: "find_close d (drop (length d) (x # xs)) = Some p" and p: "(captured, rest) = p"
  have le: "find_close d s = Some (c, r) \<Longrightarrow> length r \<le> length s" for s c r
    by (induction s arbitrary: c r) (auto split: if_splits option.splits)
  from f p have "length rest \<le> length (drop (length d) (x # xs))"
    using le [of "drop (length d) (x # xs)" captured rest] by simp
  moreover from d have "length (drop (length d) (x # xs)) < length (x # xs)"
    by (cases d) simp_all
  ultimately show "((d, open_tag, close_tag, rest), (d, open_tag, close_tag, x # xs))
      \<in> measure (\<lambda>(d, open_tag, close_tag, s). length s)"
    by simp
qed simp_all

function replace_heading :: "jsstring \<Rightarrow> jsstring \<Rightarrow> jsstring \<Rightarrow> bool \<Rightarrow> jsstring \<Rightarrow> jsstring" where
  "replace_heading marker open_tag close_tag at_start [] = []"
| "replace_heading marker open_tag close_tag at_start (x # xs) =
     (if at_start \<and> marker \<noteq> [] \<and> prefix marker (x # xs) then
        open_tag @ takeWhile (\<lambda>c. \<not> is_line_terminator c) (drop (length marker) (x # xs)) @ close_tag @
        replace_heading marker open_tag close_tag False
          (dropWhile (\<lambda>c. \<not> is_line_terminator c) (drop (length marker) (x # xs)))
      else x # replace_heading marker open_tag close_tag (is_line_terminator x) xs)"
  by pat_completeness auto
termination
proof (relation "measure (\<lambda>(marker, open_tag, close_tag, at_start, s). length s)")
  show "wf (measure (\<lambda>(marker, open_tag, close_tag, at_start, s). length s))" by simp
next
  fix marker open_tag close_tag :: jsstring and at_start :: bool and x xs
  assume m: "at_start \<and> marker \<noteq> [] \<and> prefix marker (x # xs)"
  have "length (dropWhile (\<lambda>c. \<not> is_line_terminator c) (drop (length marker) (x # xs)))
          \<le> length (drop (length marker) (x # xs))"
    by (rule length_dropWhile_le)
  moreover from m have "length (drop (length marker) (x # xs)) < length (x # xs)"
    by (cases marker) simp_all
  ultimately show "((marker, open_tag, close_tag, False,
        dropWhile (\<lambda>c. \<not> is_line_terminator c) (drop (length marker) (x # xs))),
       (marker, open_tag, close_tag, at_start, x # xs))
      \<in> measure (\<lambda>(marker, open_tag, close_tag, at_start, s). length s)"
    by simp
qed simp_all

definition formatMarkdownForDisplay :: "jsstring \<Rightarrow> jsstring" where
  "formatMarkdownForDisplay markdown_text =
     replace_heading (js ''### '') (js ''<h3>'') (js ''</h3>'') True
       (replace_heading (js ''## '') (js ''<h2>'') (js ''</h2>'') True
         (replace_heading (js ''# '') (js ''<h1>'') (js ''</h1>'') True
           (replace_delimited (js ''*'') (js ''<em>'') (js ''</em>'')
             (replace_delimited (js ''**'') (js ''<strong>'') (js ''</strong>'')
               (replace_newlines markdown_text)))))"


text \<open>
  The same formatter, written as the rule table of the specification: the substitutions
  newline, bold, italic, heading 1, heading 2, heading 3, applied in that order.
\<close>

definition markdown_rules :: "(jsstring \<Rightarrow> jsstring) list" where
  "markdown_rules =
     [replace_newlines,
      replace_delimited (js ''**'') (js ''<strong>'') (js ''</strong>''),
      replace_delimited (js ''*'') (js ''<em>'') (js ''</em>''),
      replace_heading (js ''# '') (js ''<h1>'') (js ''</h1>'') True,
      replace_heading (js ''## '') (js ''<h2>'') (js ''</h2>'') True,
      replace_heading (js ''### '') (js ''<h3>'') (js ''</h3>'') True]"

definition apply_rules :: "(jsstring \<Rightarrow> jsstring) list \<Rightarrow> jsstring \<Rightarrow> jsstring" where
  "apply_rules rules s = fold (\<lambda>rule t. rule t) rules s"

text \<open>The number of positions of a text at which a pattern starts.\<close>

primrec occurrences :: "'a list \<Rightarrow> 'a list \<Rightarrow> nat" where
  "occurrences p [] = 0"
| "occurrences p (x # xs) = (if prefix p (x # xs) then 1 else 0) + occurrences p xs"

subsection \<open>Copy and download\<close>



text \<open>
  \<^verbatim>\<open>handleDownload\<close> makes a \<^verbatim>\<open>Blob\<close> of the one part \<^verbatim>\<open>content\<close>, points an
  anchor with the \<^verbatim>\<open>download\<close> attribute at it and clicks it: the browser saves the
  blob under that name.
\<close>

record download =
  download_name :: jsstring
  blob_parts :: "jsstring list"
  blob_type :: jsstring

definition handleDownload :: "jsstring \<Rightarrow> jsstring \<Rightarrow> download" where
  "handleDownload content filename =
     \<lparr>download_name = filename, blob_parts = [content], blob_type = js ''text/plain''\<rparr>"


definition download_click :: "output_props \<Rightarrow> jsstring \<Rightarrow> download option" where
  "download_click p activeTab =
     (if \<not> prop_hasOutput p \<and> \<not> prop_isLoading p then None
      else
        let content = (if activeTab = js ''markdown'' then markdownContent p else rawTextContent p);
            filename = js ''output.'' @ (if activeTab = js ''markdown'' then js ''md'' else js ''txt'')
        in Some (handleDownload content filename))"

subsection \<open>Rendering\<close>

datatype output_view =
    ParseHint
  | Processing
  | TabContents (markdown_html: jsstring) (raw_pre: jsstring) (shown_metadata: "parse_metadata option")


section \<open>Document preview (DocumentPreview)\<close>

text \<open>
  The object URLs this component has created and not revoked. \<^verbatim>\<open>URL.createObjectURL\<close>
  returns a URL that was never returned before; \<^verbatim>\<open>URL.revokeObjectURL\<close> releases
  it. A URL is represented by its serial number.
\<close>

record url_store =
  live_urls :: "nat list"
  next_url :: nat

definition createObjectURL :: "url_store \<Rightarrow> url_store \<times> nat" where
  "createObjectURL s =
     (\<lparr>live_urls = next_url s # live_urls s, next_url = Suc (next_url s)\<rparr>, next_url s)"

definition revokeObjectURL :: "nat \<Rightarrow> url_store \<Rightarrow> url_store" where
  "revokeObjectURL u s = s\<lparr>live_urls := removeAll u (live_urls s)\<rparr>"

text \<open>
  A mounted component: its two state variables, and what React keeps for the effect,
  namely the \<^verbatim>\<open>file\<close> of the last render (the dependency) and the clean-up function
  the effect returned (here the URL that function revokes). \<open>pending_reads\<close> counts the
  \<^verbatim>\<open>FileReader\<close>s that have not fired \<^verbatim>\<open>onload\<close> yet.
\<close>

record preview_component =
  rendered_file :: "file_obj option"
  preview :: "jsstring option"
  fileURL :: "nat option"
  cleanup :: "nat option"
  pending_reads :: nat
  urls :: url_store

text \<open>The body of \<^verbatim>\<open>useEffect\<close>.\<close>

definition preview_effect :: "file_obj option \<Rightarrow> preview_component \<Rightarrow> preview_component" where
  "preview_effect f c =
     (case f of
        None \<Rightarrow> c\<lparr>preview := None, fileURL := None, cleanup := None\<rparr>
      | Some file \<Rightarrow>
          if file_type file = js ''application/pdf'' then
            (let (s, url) = createObjectURL (urls c)
             in c\<lparr>urls := s, fileURL := Some url,
                  preview := Some (js ''PDF Document: '' @ file_name file),
                  cleanup := Some url\<rparr>)
          else if prefix (js ''image/'') (file_type file) then
            c\<lparr>pending_reads := Suc (pending_reads c), fileURL := None, cleanup := None\<rparr>
          else
            c\<lparr>preview := Some (js ''File: '' @ file_name file), fileURL := None, cleanup := None\<rparr>)"

text \<open>
  React runs the effect after the first render; after a later render it runs the previous
  clean-up and then the effect again when the dependency has changed, and nothing
  otherwise; at unmount it runs the last clean-up.
\<close>

definition run_cleanup :: "preview_component \<Rightarrow> preview_component" where
  "run_cleanup c =
     (case cleanup c of
        None \<Rightarrow> c
      | Some url \<Rightarrow> c\<lparr>urls := revokeObjectURL url (urls c), cleanup := None\<rparr>)"

definition mount :: "file_obj option \<Rightarrow> preview_component" where
  "mount f =
     preview_effect f
       \<lparr>rendered_file = f, preview = None, fileURL = None, cleanup = None, pending_reads = 0,
        urls = \<lparr>live_urls = [], next_url = 0\<rparr>\<rparr>"

definition rerender :: "file_obj option \<Rightarrow> preview_component \<Rightarrow> preview_component" where
  "rerender f c =
     (if f = rendered_file c then c
      else preview_effect f ((run_cleanup c)\<lparr>rendered_file := f\<rparr>))"

definition unmount :: "preview_component \<Rightarrow> preview_component" where
  "unmount c = run_cleanup c"

text \<open>\<^verbatim>\<open>reader.onload\<close>: the data URL read from the file becomes the preview.\<close>

definition reader_onload :: "jsstring \<Rightarrow> preview_component \<Rightarrow> preview_component" where
  "reader_onload result c =
     (if 0 < pending_reads c
      then c\<lparr>preview := Some result, pending_reads := pending_reads c - 1\<rparr>
      else c)"

datatype preview_event = FileProp "file_obj option" | ReaderLoad jsstring

fun preview_step :: "preview_event \<Rightarrow> preview_component \<Rightarrow> preview_component" where
  "preview_step (FileProp f) c = rerender f c"
| "preview_step (ReaderLoad result) c = reader_onload result c"

subsection \<open>Rendering\<close>

definition sampleContent :: jsstring where
  "sampleContent = concat
     [js ''\<newline>'',
      js ''    AMIR ABDALLAH\<newline>'',
      js ''    \<newline>'',
      js ''    Email: amir.abdallah@email.com | Phone: +216 XX XXX XXX\<newline>'',
      js ''    Location: Sfax, Tunisia\<newline>'',
      js ''    \<newline>'',
      js ''    EDUCATION\<newline>'',
      js ''    \<newline>'',
      js ''    National School of Electronics and Telecommunications of Sfax\<newline>'',
      js ''    Engineering Degree in Telecommunications\<newline>'',
      js ''    2019 - 2022\<newline>'',
      js ''    \<newline>'',
      js ''    EXPERIENCE\<newline>'',
      js ''    \<newline>'',
      js ''    Proxym AI Software Engineering Intern\<newline>'',
      js ''    June 2022 - August 2022\<newline>'',
      js ''    '' @ [0x2022] @ js '' Developed machine learning models for document processing\<newline>'',
      js ''    '' @ [0x2022] @ js '' Implemented OCR solutions using Python and TensorFlow\<newline>'',
      js ''    '' @ [0x2022] @ js '' Collaborated with cross-functional teams on AI projects\<newline>'',
      js ''    \<newline>'',
      js ''    Junior Developer - TechCorp\<newline>'',
      js ''    September 2022 - Present\<newline>'',
      js ''    '' @ [0x2022] @ js '' Full-stack web development using React and Node.js\<newline>'',
      js ''    '' @ [0x2022] @ js '' Database design and optimization with PostgreSQL\<newline>'',
      js ''    '' @ [0x2022] @ js '' API development and integration\<newline>'',
      js ''    \<newline>'',
      js ''    SKILLS\<newline>'',
      js ''    \<newline>'',
      js ''    Programming Languages: Python, JavaScript, TypeScript, Java\<newline>'',
      js ''    Frameworks: React, Node.js, Express, Django\<newline>'',
      js ''    Databases: PostgreSQL, MongoDB, Redis\<newline>'',
      js ''    Tools: Git, Docker, AWS, Jenkins\<newline>'',
      js ''    \<newline>'',
      js ''    PROJECTS\<newline>'',
      js ''    \<newline>'',
      js ''    Document Processing System\<newline>'',
      js ''    '' @ [0x2022] @ js '' Built an OCR system for automated document analysis\<newline>'',
      js ''    '' @ [0x2022] @ js '' Technologies: Python, OpenCV, Tesseract\<newline>'',
      js ''    \<newline>'',
      js ''    E-commerce Platform\<newline>'',
      js ''    '' @ [0x2022] @ js '' Full-stack application with payment integration\<newline>'',
      js ''    '' @ [0x2022] @ js '' Technologies: React, Node.js, Stripe API\<newline>'',
      js ''  '']"

text \<open>
  \<^verbatim>\<open>(file.size / 1024).toFixed(1)\<close>. The quotient by a power of two is exact, and
  \<^verbatim>\<open>toFixed(1)\<close> prints \<open>n / 10\<close> for the integer \<open>n\<close> nearest to ten times the
  value, the larger one at a tie: \<open>n\<close> is the floor of \<open>10 * size / 1024 + 1 / 2\<close>.
\<close>

definition size_kb :: "nat \<Rightarrow> jsstring" where
  "size_kb bytes =
     (let n = (20 * bytes + 1024) div 2048
      in dec (n div 10) @ js ''.'' @ dec (n mod 10))"

datatype preview_body =
    LoadingDocument
  | EmbedPDF nat
  | PreviewImage jsstring
  | PreText jsstring

datatype preview_view = UploadHint | Preview (header_line: jsstring) (body: preview_body)

text \<open>The text of the last branch of the render: the inner conditional of the \<^verbatim>\<open>div\<close>.\<close>

definition fallback_text :: "file_obj \<Rightarrow> jsstring" where
  "fallback_text file =
     (if file_type file = js ''application/pdf'' then
        [0xD83D, 0xDCC4] @ js '' PDF Document Preview\<newline>\<newline>File: '' @ file_name file @
        js ''\<newline>Size: '' @ size_kb (file_size file) @
        js '' KB\<newline>\<newline>Loading PDF viewer...''
      else sampleContent)"

definition DocumentPreview :: "file_obj option \<Rightarrow> bool \<Rightarrow> preview_component \<Rightarrow> preview_view" where
  "DocumentPreview f loading c =
     (case f of
        None \<Rightarrow> UploadHint
      | Some file \<Rightarrow>
          Preview (file_name file @ [0x0020, 0x2022, 0x0020] @ size_kb (file_size file) @ js '' KB'')
            (if loading then LoadingDocument
             else
               (case (file_type file = js ''application/pdf'', fileURL c) of
                  (True, Some url) \<Rightarrow> EmbedPDF url
                | _ \<Rightarrow>
                    (case (prefix (js ''image/'') (file_type file), preview c) of
                       (True, Some p) \<Rightarrow>
                         if p \<noteq> [] \<and> prefix (js ''data:'') p then PreviewImage p
                         else PreText (fallback_text file)
                     | _ \<Rightarrow> PreText (fallback_text file)))))"

section \<open>API client: properties\<close>

text \<open>\<open>dec\<close> writes the decimal digits of its argument: reading them back gives the number.\<close>

lemma dec_roundtrip: "foldl (\<lambda>a d. 10 * a + (unat d - 48)) 0 (dec n) = n"
proof (induction n rule: dec.induct)
  case (1 n)
  show ?case
  proof (cases "n < 10")
    case True
    then have "unat (of_nat (48 + n) :: unit16) = 48 + n"
      by (intro of_nat_inverse [OF refl]) simp
    then show ?thesis using True by (subst dec.simps) simp
  next
    case False
    have "n mod 10 < 10" by simp
    then have u: "unat (of_nat (48 + n mod 10) :: unit16) = 48 + n mod 10"
      by (intro of_nat_inverse [OF refl]) simp
    show ?thesis using False 1 u by (subst dec.simps) simp
  qed
qed

lemma handleResponse_422:
  assumes "status r = 422" and "json_result r = Inr error" and "detail_msg error = Inr shown"
    and "convertible shown"
  shows "handleResponse r = Inl (ErrorObj (Text (js ''Validation Error: '' @ to_text shown)))"
  using assms by (simp add: handleResponse_def ok_def)

text \<open>
  C5. For every response whose status is outside 200..299 and is not 422, the response
  handler throws an \<^verbatim>\<open>Error\<close> whose message is \<^verbatim>\<open>HTTP <status>: <status text>\<close>
  and so contains the decimal status code and the status text.
\<close>

theorem handleResponse_http_error:
  assumes "status r < 200 \<or> 299 < status r" and "status r \<noteq> 422"
  shows "handleResponse r =
           Inl (ErrorObj (Text (js ''HTTP '' @ dec (status r) @ js '': '' @ statusText r))) \<and>
         sublist (dec (status r)) (js ''HTTP '' @ dec (status r) @ js '': '' @ statusText r) \<and>
         sublist (statusText r) (js ''HTTP '' @ dec (status r) @ js '': '' @ statusText r)"
proof -
  have "\<not> ok r" using assms(1) by (auto simp: ok_def)
  then have "handleResponse r =
           Inl (ErrorObj (Text (js ''HTTP '' @ dec (status r) @ js '': '' @ statusText r)))"
    using assms(2) by (simp add: handleResponse_def)
  moreover have "sublist (dec (status r)) (js ''HTTP '' @ dec (status r) @ js '': '' @ statusText r)"
    by (rule sublist_appendI)
  moreover have "sublist (statusText r) (js ''HTTP '' @ dec (status r) @ js '': '' @ statusText r)"
    using sublist_append_leftI [of "statusText r" "js ''HTTP '' @ dec (status r) @ js '': ''"] by simp
  ultimately show ?thesis by blast
qed

theorem handleResponse_http_error_witness:
  "handleResponse \<lparr>status = 404, statusText = js ''Not Found'', json_result = Inr JNull\<rparr> =
     Inl (ErrorObj (Text (js ''HTTP 404: Not Found''))) \<and>
   sublist (js ''404'') (js ''HTTP 404: Not Found'') \<and>
   sublist (js ''Not Found'') (js ''HTTP 404: Not Found'')"
  using handleResponse_http_error [of "\<lparr>status = 404, statusText = js ''Not Found'', json_result = Inr JNull\<rparr>"]
  by (simp add: js_def dec.simps)

text \<open>
  C1, as stated, fails: for a 422 response whose body is
  \<^verbatim>\<open>{"detail": [{"msg": "field required"}]}\<close> the thrown message is
  \<^verbatim>\<open>Validation Error: field required\<close>, which is not the entry's \<^verbatim>\<open>msg\<close>.
\<close>

theorem handleResponse_422_not_bare_msg:
  "handleResponse
     \<lparr>status = 422, statusText = js ''Unprocessable Entity'',
      json_result = Inr (JObj [(js ''detail'', JArr [JObj [(js ''msg'', JStr (js ''field required''))]])])\<rparr>
     = Inl (ErrorObj (Text (js ''Validation Error: field required''))) \<and>
   js ''Validation Error: field required'' \<noteq> js ''field required''"
  by (simp add: handleResponse_def ok_def detail_msg_def nullish_def read_named_def read_first_def
      own_property_def truthy_def js_def)

text \<open>
  C1, amended. For every 422 response whose JSON body is an object: when \<^verbatim>\<open>detail\<close>
  is a non-empty list whose first entry is an object with a non-empty string
  \<^verbatim>\<open>msg\<close>, the thrown message is \<^verbatim>\<open>Validation Error: \<close> followed by that
  \<^verbatim>\<open>msg\<close>; when \<^verbatim>\<open>detail\<close> is the empty list or absent, the thrown message is
  \<^verbatim>\<open>Validation Error: Invalid input\<close>.
\<close>

theorem handleResponse_validation_message:
  assumes "status r = 422" and "json_result r = Inr (JObj members)"
  shows "(own_property members (js ''detail'') = JArr (JObj entry # rest) \<and>
          own_property entry (js ''msg'') = JStr m \<and> m \<noteq> []
            \<longrightarrow> handleResponse r = Inl (ErrorObj (Text (js ''Validation Error: '' @ m)))) \<and>
         (own_property members (js ''detail'') = JArr [] \<or>
          own_property members (js ''detail'') = JUndefined
            \<longrightarrow> handleResponse r = Inl (ErrorObj (Text (js ''Validation Error: Invalid input''))))"
proof (intro conjI impI)
  assume a: "own_property members (js ''detail'') = JArr (JObj entry # rest) \<and>
          own_property entry (js ''msg'') = JStr m \<and> m \<noteq> []"
  then have "detail_msg (JObj members) = Inr (JStr m)"
    by (simp add: detail_msg_def nullish_def read_named_def read_first_def truthy_def)
  from handleResponse_422 [OF assms this] show "handleResponse r = Inl (ErrorObj (Text (js ''Validation Error: '' @ m)))"
    by simp
next
  assume a: "own_property members (js ''detail'') = JArr [] \<or>
          own_property members (js ''detail'') = JUndefined"
  then have "detail_msg (JObj members) = Inr (JStr (js ''Invalid input''))"
    by (auto simp: detail_msg_def nullish_def read_named_def read_first_def truthy_def)
  from handleResponse_422 [OF assms this] show "handleResponse r = Inl (ErrorObj (Text (js ''Validation Error: Invalid input'')))"
    by (simp add: js_def)
qed

theorem handleResponse_validation_message_witness:
  "handleResponse
     \<lparr>status = 422, statusText = js ''Unprocessable Entity'',
      json_result = Inr (JObj [(js ''detail'', JArr [JObj [(js ''msg'', JStr (js ''field required''))]])])\<rparr>
     = Inl (ErrorObj (Text (js ''Validation Error: field required''))) \<and>
   handleResponse
     \<lparr>status = 422, statusText = js ''Unprocessable Entity'',
      json_result = Inr (JObj [(js ''detail'', JArr [])])\<rparr>
     = Inl (ErrorObj (Text (js ''Validation Error: Invalid input''))) \<and>
   handleResponse
     \<lparr>status = 422, statusText = js ''Unprocessable Entity'',
      json_result = Inr (JObj [])\<rparr>
     = Inl (ErrorObj (Text (js ''Validation Error: Invalid input'')))"
  using
    handleResponse_validation_message [of
      "\<lparr>status = 422, statusText = js ''Unprocessable Entity'',
        json_result = Inr (JObj [(js ''detail'', JArr [JObj [(js ''msg'', JStr (js ''field required''))]])])\<rparr>"
      "[(js ''detail'', JArr [JObj [(js ''msg'', JStr (js ''field required''))]])]"
      "[(js ''msg'', JStr (js ''field required''))]" "[]" "js ''field required''"]
    handleResponse_validation_message [of
      "\<lparr>status = 422, statusText = js ''Unprocessable Entity'',
        json_result = Inr (JObj [(js ''detail'', JArr [])])\<rparr>"
      "[(js ''detail'', JArr [])]" "[]" "[]" "[]"]
    handleResponse_validation_message [of
      "\<lparr>status = 422, statusText = js ''Unprocessable Entity'',
        json_result = Inr (JObj [])\<rparr>"
      "[]" "[]" "[]" "[]"]
  by (simp add: own_property_def js_def)

section \<open>Upload and selection panel: properties\<close>

text \<open>
  C7. For every call of \<^verbatim>\<open>parseDocument(file, promptId)\<close>, whatever the network
  answers: exactly one request is handed to \<^verbatim>\<open>fetch\<close>, a POST to the parse endpoint
  whose body is a form of exactly two entries, \<^verbatim>\<open>file\<close> holding the file and
  \<^verbatim>\<open>promptId\<close> holding the identifier, in that order; and the call settles to what
  the response handler makes of the answer to that request. The Parse button is disabled
  whenever no file is selected or the selected prompt is empty, and then neither the click
  handler nor a click on the button calls \<^verbatim>\<open>onParse\<close>; a click that does call it
  passes the selected file and a non-empty prompt identifier.
\<close>

theorem parse_needs_file_and_prompt:
  "snd (parseDocument fetch env f promptId) =
     [\<lparr>req_url = API_BASE_URL env @ js ''/api/v1/parse/'', req_method = js ''POST'',
       req_body = Some [(js ''file'', FormFile f), (js ''promptId'', FormString promptId)]\<rparr>] \<and>
   fst (parseDocument fetch env f promptId) =
     (case fetch \<lparr>req_url = API_BASE_URL env @ js ''/api/v1/parse/'', req_method = js ''POST'',
                   req_body = Some [(js ''file'', FormFile f), (js ''promptId'', FormString promptId)]\<rparr> of
        Inl e \<Rightarrow> Inl e
      | Inr r \<Rightarrow> handleResponse r) \<and>
   req_body (parseDocument_request env f promptId) =
     Some [(js ''file'', FormFile f), (js ''promptId'', FormString promptId)] \<and>
   (sidebar_selectedFile sb = None \<or> selectedPrompt sb = []
      \<longrightarrow> parse_disabled loading sb \<and> handleParseClick sb = None \<and>
          parse_button_click loading sb = None) \<and>
   (parse_button_click loading sb = Some (g, p)
      \<longrightarrow> sidebar_selectedFile sb = Some g \<and> selectedPrompt sb = p \<and> p \<noteq> [])"
proof -
  have sent: "parseDocument_request env f promptId =
      \<lparr>req_url = API_BASE_URL env @ js ''/api/v1/parse/'', req_method = js ''POST'',
       req_body = Some [(js ''file'', FormFile f), (js ''promptId'', FormString promptId)]\<rparr>"
    by (simp add: parseDocument_request_def FormData_append_def)
  have "snd (parseDocument fetch env f promptId) = [parseDocument_request env f promptId]"
    and "fst (parseDocument fetch env f promptId) =
      (case fetch (parseDocument_request env f promptId) of Inl e \<Rightarrow> Inl e | Inr r \<Rightarrow> handleResponse r)"
    by (simp_all add: parseDocument_def Let_def)
  then have api: "snd (parseDocument fetch env f promptId) =
     [\<lparr>req_url = API_BASE_URL env @ js ''/api/v1/parse/'', req_method = js ''POST'',
       req_body = Some [(js ''file'', FormFile f), (js ''promptId'', FormString promptId)]\<rparr>]"
    "fst (parseDocument fetch env f promptId) =
     (case fetch \<lparr>req_url = API_BASE_URL env @ js ''/api/v1/parse/'', req_method = js ''POST'',
                   req_body = Some [(js ''file'', FormFile f), (js ''promptId'', FormString promptId)]\<rparr> of
        Inl e \<Rightarrow> Inl e
      | Inr r \<Rightarrow> handleResponse r)"
    by (simp_all only: sent)
  have body: "req_body (parseDocument_request env f promptId) =
     Some [(js ''file'', FormFile f), (js ''promptId'', FormString promptId)]"
    by (simp add: sent)
  have ui: "(sidebar_selectedFile sb = None \<or> selectedPrompt sb = []
      \<longrightarrow> parse_disabled loading sb \<and> handleParseClick sb = None \<and>
          parse_button_click loading sb = None) \<and>
   (parse_button_click loading sb = Some (g, p)
      \<longrightarrow> sidebar_selectedFile sb = Some g \<and> selectedPrompt sb = p \<and> p \<noteq> [])"
    by (auto simp: parse_disabled_def handleParseClick_def parse_button_click_def
        split: option.splits if_splits)
  from api body ui show ?thesis by (intro conjI) blast+
qed

theorem parse_needs_file_and_prompt_witness:
  "snd (parseDocument (\<lambda>req. Inl (ErrorObj (Text (js ''Failed to fetch'')))) None \<lparr>file_ident = 0, file_name = js ''a.pdf'', file_size = 12, file_type = js ''application/pdf''\<rparr> (js ''prompt_ocr'')) =
     [\<lparr>req_url = js ''http://localhost:8000/api/v1/parse/'', req_method = js ''POST'',
       req_body = Some [(js ''file'', FormFile \<lparr>file_ident = 0, file_name = js ''a.pdf'', file_size = 12, file_type = js ''application/pdf''\<rparr>), (js ''promptId'', FormString (js ''prompt_ocr''))]\<rparr>] \<and>
   fst (parseDocument (\<lambda>req. Inl (ErrorObj (Text (js ''Failed to fetch'')))) None \<lparr>file_ident = 0, file_name = js ''a.pdf'', file_size = 12, file_type = js ''application/pdf''\<rparr> (js ''prompt_ocr'')) = Inl (ErrorObj (Text (js ''Failed to fetch''))) \<and>
   parse_disabled False \<lparr>sidebar_selectedFile = None, selectedPrompt = js ''prompt_ocr'', prompts = [], loadingPrompts = False\<rparr> \<and>
   parse_button_click False \<lparr>sidebar_selectedFile = None, selectedPrompt = js ''prompt_ocr'', prompts = [], loadingPrompts = False\<rparr> = None \<and>
   parse_disabled False
     \<lparr>sidebar_selectedFile = Some \<lparr>file_ident = 0, file_name = js ''a.pdf'', file_size = 12, file_type = js ''application/pdf''\<rparr>, selectedPrompt = [], prompts = [], loadingPrompts = False\<rparr> \<and>
   parse_button_click False
     \<lparr>sidebar_selectedFile = Some \<lparr>file_ident = 0, file_name = js ''a.pdf'', file_size = 12, file_type = js ''application/pdf''\<rparr>, selectedPrompt = js ''prompt_ocr'', prompts = [], loadingPrompts = False\<rparr> =
     Some (\<lparr>file_ident = 0, file_name = js ''a.pdf'', file_size = 12, file_type = js ''application/pdf''\<rparr>, js ''prompt_ocr'')"
  using
    parse_needs_file_and_prompt [of
        "(\<lambda>req. Inl (ErrorObj (Text (js ''Failed to fetch''))))"
        None
        "\<lparr>file_ident = 0, file_name = js ''a.pdf'', file_size = 12, file_type = js ''application/pdf''\<rparr>"
        "js ''prompt_ocr''"
      "\<lparr>sidebar_selectedFile = None, selectedPrompt = js ''prompt_ocr'', prompts = [], loadingPrompts = False\<rparr>"
      False]
    parse_needs_file_and_prompt [of
        "(\<lambda>req. Inl (ErrorObj (Text (js ''Failed to fetch''))))"
        None
        "\<lparr>file_ident = 0, file_name = js ''a.pdf'', file_size = 12, file_type = js ''application/pdf''\<rparr>"
        "js ''prompt_ocr''"
      "\<lparr>sidebar_selectedFile = Some \<lparr>file_ident = 0, file_name = js ''a.pdf'', file_size = 12, file_type = js ''application/pdf''\<rparr>, selectedPrompt = [], prompts = [], loadingPrompts = False\<rparr>"
      False]
  by (simp add: parse_button_click_def parse_disabled_def handleParseClick_def API_BASE_URL_def js_def)

section \<open>Orchestrator: properties\<close>

lemma fold_handleFileSelect_frame:
  "isLoading (fold handleFileSelect fs st) = isLoading st \<and>
   outputData (fold handleFileSelect fs st) = outputData st"
  by (induction fs arbitrary: st) (simp_all add: handleFileSelect_def)

lemma fold_handleFileSelect_hasOutput:
  "hasOutput st = False \<Longrightarrow> hasOutput (fold handleFileSelect fs st) = False"
  by (induction fs arbitrary: st) (simp_all add: handleFileSelect_def)

text \<open>
  C9. The select-file transition sets \<open>selectedFile\<close> to the chosen file and clears
  \<open>hasOutput\<close>; \<open>isLoading\<close> and \<open>outputData\<close> are as they were, for every prior state.
\<close>

theorem handleFileSelect_frame:
  "selectedFile (handleFileSelect f st) = Some f \<and>
   hasOutput (handleFileSelect f st) = False \<and>
   isLoading (handleFileSelect f st) = isLoading st \<and>
   outputData (handleFileSelect f st) = outputData st \<and>
   handleFileSelect f st = st\<lparr>selectedFile := Some f, hasOutput := False\<rparr>"
  by (simp add: handleFileSelect_def)

text \<open>
  C4, as stated, fails: \<^verbatim>\<open>parseDocument\<close> resolves with the parsed body of any 2xx
  response, and for the body \<^verbatim>\<open>null\<close> the handler ends with \<open>hasOutput\<close> true and
  \<open>outputData\<close> null.
\<close>

theorem handleParse_null_body:
  "fst (parseDocument (\<lambda>req. Inr \<lparr>status = 200, statusText = js ''OK'', json_result = Inr JNull\<rparr>) None \<lparr>file_ident = 0, file_name = js ''a.pdf'', file_size = 12, file_type = js ''application/pdf''\<rparr> (js ''prompt_ocr'')) = Inr JNull \<and>
   hasOutput (fst (handleParse (\<lambda>req. Inr \<lparr>status = 200, statusText = js ''OK'', json_result = Inr JNull\<rparr>) None [] \<lparr>file_ident = 0, file_name = js ''a.pdf'', file_size = 12, file_type = js ''application/pdf''\<rparr> (js ''prompt_ocr'') initial_ocr_state)) = True \<and>
   outputData (fst (handleParse (\<lambda>req. Inr \<lparr>status = 200, statusText = js ''OK'', json_result = Inr JNull\<rparr>) None [] \<lparr>file_ident = 0, file_name = js ''a.pdf'', file_size = 12, file_type = js ''application/pdf''\<rparr> (js ''prompt_ocr'') initial_ocr_state)) = JNull"
  by (simp add: handleParse_def handleParse_settle_def handleParse_begin_def parseDocument_def
      Let_def handleResponse_def ok_def initial_ocr_state_def)

text \<open>
  C4, amended. For every run of the parse handler from every prior state: when
  \<^verbatim>\<open>parseDocument\<close> resolves with a value, afterwards \<open>hasOutput\<close> is true,
  \<open>outputData\<close> is that value (the parsed body of the response, stored unchecked, hence
  non-null exactly when the body is not \<^verbatim>\<open>null\<close>) and \<open>isLoading\<close> is false; when it
  rejects, afterwards \<open>hasOutput\<close> is false, \<open>outputData\<close> is null and \<open>isLoading\<close> is
  false, which are the values of the cleared pending state.
\<close>

theorem handleParse_outcome:
  "(fst (parseDocument fetch env f promptId) = Inr result \<longrightarrow>
      hasOutput (fst (handleParse fetch env picked f promptId st)) = True \<and>
      outputData (fst (handleParse fetch env picked f promptId st)) = result \<and>
      isLoading (fst (handleParse fetch env picked f promptId st)) = False \<and>
      (outputData (fst (handleParse fetch env picked f promptId st)) = JNull) = (result = JNull)) \<and>
   (fst (parseDocument fetch env f promptId) = Inl error \<longrightarrow>
      hasOutput (fst (handleParse fetch env picked f promptId st)) = False \<and>
      outputData (fst (handleParse fetch env picked f promptId st)) = JNull \<and>
      isLoading (fst (handleParse fetch env picked f promptId st)) = False \<and>
      hasOutput (fst (handleParse fetch env picked f promptId st)) = hasOutput (handleParse_begin st) \<and>
      outputData (fst (handleParse fetch env picked f promptId st)) = outputData (handleParse_begin st))"
proof -
  let ?mid = "fold handleFileSelect picked (handleParse_begin st)"
  have out: "outputData ?mid = JNull"
    using fold_handleFileSelect_frame [of picked "handleParse_begin st"]
    by (simp add: handleParse_begin_def)
  have has: "hasOutput ?mid = False"
    by (rule fold_handleFileSelect_hasOutput) (simp add: handleParse_begin_def)
  show ?thesis
    using out has by (simp add: handleParse_def handleParse_settle_def handleParse_begin_def)
qed

theorem handleParse_outcome_witness:
  "hasOutput (fst (handleParse (\<lambda>req. Inr \<lparr>status = 200, statusText = js ''OK'', json_result = Inr (JObj [(js ''success'', JBool True)])\<rparr>) None [\<lparr>file_ident = 0, file_name = js ''a.pdf'', file_size = 12, file_type = js ''application/pdf''\<rparr>] \<lparr>file_ident = 0, file_name = js ''a.pdf'', file_size = 12, file_type = js ''application/pdf''\<rparr> (js ''prompt_ocr'') initial_ocr_state)) = True \<and>
   outputData (fst (handleParse (\<lambda>req. Inr \<lparr>status = 200, statusText = js ''OK'', json_result = Inr (JObj [(js ''success'', JBool True)])\<rparr>) None [\<lparr>file_ident = 0, file_name = js ''a.pdf'', file_size = 12, file_type = js ''application/pdf''\<rparr>] \<lparr>file_ident = 0, file_name = js ''a.pdf'', file_size = 12, file_type = js ''application/pdf''\<rparr> (js ''prompt_ocr'') initial_ocr_state))
     = JObj [(js ''success'', JBool True)] \<and>
   isLoading (fst (handleParse (\<lambda>req. Inr \<lparr>status = 200, statusText = js ''OK'', json_result = Inr (JObj [(js ''success'', JBool True)])\<rparr>) None [\<lparr>file_ident = 0, file_name = js ''a.pdf'', file_size = 12, file_type = js ''application/pdf''\<rparr>] \<lparr>file_ident = 0, file_name = js ''a.pdf'', file_size = 12, file_type = js ''application/pdf''\<rparr> (js ''prompt_ocr'') initial_ocr_state)) = False \<and>
   hasOutput (fst (handleParse (\<lambda>req. Inr \<lparr>status = 500, statusText = js ''Internal Server Error'', json_result = Inr JNull\<rparr>) None [\<lparr>file_ident = 0, file_name = js ''a.pdf'', file_size = 12, file_type = js ''application/pdf''\<rparr>] \<lparr>file_ident = 0, file_name = js ''a.pdf'', file_size = 12, file_type = js ''application/pdf''\<rparr> (js ''prompt_ocr'') initial_ocr_state)) = False \<and>
   outputData (fst (handleParse (\<lambda>req. Inr \<lparr>status = 500, statusText = js ''Internal Server Error'', json_result = Inr JNull\<rparr>) None [\<lparr>file_ident = 0, file_name = js ''a.pdf'', file_size = 12, file_type = js ''application/pdf''\<rparr>] \<lparr>file_ident = 0, file_name = js ''a.pdf'', file_size = 12, file_type = js ''application/pdf''\<rparr> (js ''prompt_ocr'') initial_ocr_state)) = JNull \<and>
   isLoading (fst (handleParse (\<lambda>req. Inr \<lparr>status = 500, statusText = js ''Internal Server Error'', json_result = Inr JNull\<rparr>) None [\<lparr>file_ident = 0, file_name = js ''a.pdf'', file_size = 12, file_type = js ''application/pdf''\<rparr>] \<lparr>file_ident = 0, file_name = js ''a.pdf'', file_size = 12, file_type = js ''application/pdf''\<rparr> (js ''prompt_ocr'') initial_ocr_state)) = False"
proof -
  have resolved: "fst (parseDocument (\<lambda>req. Inr \<lparr>status = 200, statusText = js ''OK'', json_result = Inr (JObj [(js ''success'', JBool True)])\<rparr>) None \<lparr>file_ident = 0, file_name = js ''a.pdf'', file_size = 12, file_type = js ''application/pdf''\<rparr> (js ''prompt_ocr''))
                    = Inr (JObj [(js ''success'', JBool True)])"
    by (simp add: parseDocument_def Let_def handleResponse_def ok_def)
  have rejected: "fst (parseDocument (\<lambda>req. Inr \<lparr>status = 500, statusText = js ''Internal Server Error'', json_result = Inr JNull\<rparr>) None \<lparr>file_ident = 0, file_name = js ''a.pdf'', file_size = 12, file_type = js ''application/pdf''\<rparr> (js ''prompt_ocr''))
                    = Inl (ErrorObj (Text (js ''HTTP '' @ dec 500 @ js '': '' @ js ''Internal Server Error'')))"
    by (simp add: parseDocument_def Let_def handleResponse_def ok_def)
  show ?thesis
    using
      handleParse_outcome [of
        "(\<lambda>req. Inr \<lparr>status = 200, statusText = js ''OK'', json_result = Inr (JObj [(js ''success'', JBool True)])\<rparr>)"
        None
        "\<lparr>file_ident = 0, file_name = js ''a.pdf'', file_size = 12, file_type = js ''application/pdf''\<rparr>"
        "js ''prompt_ocr''" "JObj [(js ''success'', JBool True)]"
        "[\<lparr>file_ident = 0, file_name = js ''a.pdf'', file_size = 12, file_type = js ''application/pdf''\<rparr>]" initial_ocr_state]
      handleParse_outcome [of
        "(\<lambda>req. Inr \<lparr>status = 500, statusText = js ''Internal Server Error'', json_result = Inr JNull\<rparr>)"
        None
        "\<lparr>file_ident = 0, file_name = js ''a.pdf'', file_size = 12, file_type = js ''application/pdf''\<rparr>"
        "js ''prompt_ocr''" _
        "[\<lparr>file_ident = 0, file_name = js ''a.pdf'', file_size = 12, file_type = js ''application/pdf''\<rparr>]" initial_ocr_state
        "ErrorObj (Text (js ''HTTP '' @ dec 500 @ js '': '' @ js ''Internal Server Error''))"]
      resolved rejected
    by simp
qed

section \<open>Output panel: properties\<close>

subsection \<open>Counting a pattern across a concatenation\<close>

lemma occurrences_append_ge:
  "occurrences p a + occurrences p b \<le> occurrences p (a @ b)"
proof (induction a)
  case Nil
  then show ?case by simp
next
  case (Cons x a)
  have "prefix p (x # a) \<Longrightarrow> prefix p (x # a @ b)"
    using prefix_prefix [of p "x # a" b] by simp
  with Cons show ?case by auto
qed

lemma occurrences_skip:
  assumes "p \<noteq> []" and "set d \<inter> set p = {}"
  shows "occurrences p (d @ b) = occurrences p b"
  using assms(2)
proof (induction d)
  case Nil
  then show ?case by simp
next
  case (Cons t d)
  from assms(1) obtain q qs where p: "p = q # qs" by (cases p) auto
  with Cons.prems have "\<not> prefix p (t # d @ b)" by auto
  with Cons show ?case by simp
qed

lemma occurrences_barrier:
  assumes "p \<noteq> []" and "t \<notin> set p"
  shows "occurrences p (a @ t # b) \<le> occurrences p a + occurrences p b"
proof (induction a)
  case Nil
  show ?case using occurrences_skip [OF assms(1), of "[t]" b] assms(2) by simp
next
  case (Cons x a)
  have keep: "prefix p (x # a)" if pre: "prefix p ((x # a) @ t # b)"
  proof -
    from pre have "prefix p (x # a) \<or> (\<exists>us. p = (x # a) @ us \<and> prefix us (t # b))"
      by (simp only: prefix_append)
    then show ?thesis
    proof (elim disjE exE conjE)
      fix us
      assume p: "p = (x # a) @ us" and us: "prefix us (t # b)"
      show "prefix p (x # a)"
      proof (cases us)
        case Nil
        with p show ?thesis by simp
      next
        case (Cons u us')
        with us have "u = t" by simp
        with p Cons have "t \<in> set p" by simp
        with assms(2) show ?thesis by simp
      qed
    qed
  qed
  have "occurrences p ((x # a) @ t # b) =
          (if prefix p ((x # a) @ t # b) then 1 else 0) + occurrences p (a @ t # b)"
    by simp
  also have "\<dots> \<le> (if prefix p (x # a) then 1 else 0) + occurrences p (a @ t # b)"
    using keep by (simp del: append_Cons)
  also have "\<dots> \<le> (if prefix p (x # a) then 1 else 0) + (occurrences p a + occurrences p b)"
    using Cons.IH by (simp del: prefix_Cons)
  also have "\<dots> = occurrences p (x # a) + occurrences p b"
    by (simp del: prefix_Cons)
  finally show ?case .
qed

lemma occurrences_barrier_list:
  assumes "p \<noteq> []" and "d \<noteq> []" and "set d \<inter> set p = {}"
  shows "occurrences p (a @ d @ b) \<le> occurrences p a + occurrences p b"
proof -
  from assms(2) obtain t d' where d: "d = t # d'" by (cases d) auto
  with assms(3) have t: "t \<notin> set p" and d': "set d' \<inter> set p = {}" by auto
  have "occurrences p (a @ d @ b) = occurrences p (a @ t # (d' @ b))" using d by simp
  also have "\<dots> \<le> occurrences p a + occurrences p (d' @ b)"
    by (rule occurrences_barrier [OF assms(1) t])
  also have "\<dots> = occurrences p a + occurrences p b"
    using occurrences_skip [OF assms(1) d'] by simp
  finally show ?thesis .
qed


subsection \<open>The substitutions keep every line-break tag\<close>

lemma prefix_drop: "prefix d s \<Longrightarrow> s = d @ drop (length d) s"
  by (auto simp: prefix_def)

lemma find_close_split:
  "find_close d s = Some (captured, rest) \<Longrightarrow> s = captured @ d @ rest"
proof (induction s arbitrary: captured rest)
  case Nil
  then show ?case by (simp split: if_splits)
next
  case (Cons x xs)
  show ?case
  proof (cases "prefix d (x # xs)")
    case True
    with Cons.prems have "captured = []" "rest = drop (length d) (x # xs)" by simp_all
    moreover from True have "x # xs = d @ drop (length d) (x # xs)"
      by (rule prefix_drop)
    ultimately show ?thesis by simp
  next
    case False
    with Cons.prems obtain c' where "find_close d xs = Some (c', rest)" "captured = x # c'"
      by (auto split: if_splits option.splits)
    with Cons.IH show ?thesis by simp
  qed
qed

lemma occurrences_replace_delimited:
  "p \<noteq> [] \<Longrightarrow> set d \<inter> set p = {} \<Longrightarrow>
   occurrences p (pre @ s) \<le> occurrences p (pre @ replace_delimited d open_tag close_tag s)"
proof (induction d open_tag close_tag s arbitrary: pre rule: replace_delimited.induct)
  case (1 d open_tag close_tag)
  then show ?case by simp
next
  case (2 d open_tag close_tag x xs)
  note p = "2.prems"(1) and disj = "2.prems"(2)
  have step: "occurrences p (pre @ x # xs)
                \<le> occurrences p (pre @ x # replace_delimited d open_tag close_tag xs)"
    if "find_close d (drop (length d) (x # xs)) = None \<or> \<not> (d \<noteq> [] \<and> prefix d (x # xs))" for pre
  proof -
    have "occurrences p ((pre @ [x]) @ xs)
            \<le> occurrences p ((pre @ [x]) @ replace_delimited d open_tag close_tag xs)"
    proof (cases "d \<noteq> [] \<and> prefix d (x # xs)")
      case True
      with that have "find_close d (drop (length d) (x # xs)) = None" by blast
      from "2.IH"(1) [OF True this p disj] show ?thesis .
    next
      case False
      from "2.IH"(3) [OF this p disj] show ?thesis .
    qed
    then show ?thesis by simp
  qed
  show ?case
  proof (cases "d \<noteq> [] \<and> prefix d (x # xs)")
    case False
    then show ?thesis using step [of pre] by auto
  next
    case True
    show ?thesis
    proof (cases "find_close d (drop (length d) (x # xs))")
      case None
      then show ?thesis using True step [of pre] by simp
    next
      case (Some cr)
      obtain captured rest where cr: "cr = (captured, rest)" by (cases cr)
      let ?out = "replace_delimited d open_tag close_tag rest"
      from True have xs: "x # xs = d @ drop (length d) (x # xs)"
        by (intro prefix_drop) simp
      from Some cr have "drop (length d) (x # xs) = captured @ d @ rest"
        by (simp add: find_close_split)
      with xs have whole: "x # xs = d @ captured @ d @ rest" by simp
      from True have dne: "d \<noteq> []" by simp
      have "occurrences p (pre @ x # xs) = occurrences p (pre @ d @ (captured @ d @ rest))"
        using whole by simp
      also have "\<dots> \<le> occurrences p pre + occurrences p (captured @ d @ rest)"
        by (rule occurrences_barrier_list [OF p dne disj])
      also have "\<dots> \<le> occurrences p pre + (occurrences p captured + occurrences p rest)"
        using occurrences_barrier_list [OF p dne disj, of captured rest] by simp
      also have "\<dots> \<le> occurrences p pre + (occurrences p captured + occurrences p ?out)"
        using "2.IH"(2) [OF True Some cr [symmetric] p disj, where pre = "[]"] by simp
      also have "\<dots> \<le> occurrences p pre + (occurrences p captured + occurrences p (close_tag @ ?out))"
        using occurrences_append_ge [of p close_tag ?out] by simp
      also have "\<dots> \<le> occurrences p pre + occurrences p (captured @ close_tag @ ?out)"
        using occurrences_append_ge [of p captured "close_tag @ ?out"] by simp
      also have "\<dots> \<le> occurrences p pre + occurrences p (open_tag @ captured @ close_tag @ ?out)"
        using occurrences_append_ge [of p open_tag "captured @ close_tag @ ?out"] by simp
      also have "\<dots> \<le> occurrences p (pre @ open_tag @ captured @ close_tag @ ?out)"
        by (rule occurrences_append_ge)
      finally show ?thesis using True Some cr by simp
    qed
  qed
qed

lemma occurrences_replace_heading:
  "p \<noteq> [] \<Longrightarrow> set marker \<inter> set p = {} \<Longrightarrow> (\<And>t. is_line_terminator t \<Longrightarrow> t \<notin> set p) \<Longrightarrow>
   occurrences p (pre @ s)
     \<le> occurrences p (pre @ replace_heading marker open_tag close_tag at_start s)"
proof (induction marker open_tag close_tag at_start s arbitrary: pre rule: replace_heading.induct)
  case (1 marker open_tag close_tag at_start)
  then show ?case by simp
next
  case (2 marker open_tag close_tag at_start x xs)
  note p = "2.prems"(1) and disj = "2.prems"(2) and lt = "2.prems"(3)
  show ?case
  proof (cases "at_start \<and> marker \<noteq> [] \<and> prefix marker (x # xs)")
    case False
    have "occurrences p ((pre @ [x]) @ xs)
            \<le> occurrences p ((pre @ [x]) @
                  replace_heading marker open_tag close_tag (is_line_terminator x) xs)"
      by (rule "2.IH"(2) [OF False p disj lt])
    then show ?thesis using False by auto
  next
    case True
    define body where "body = drop (length marker) (x # xs)"
    define line where "line = takeWhile (\<lambda>c. \<not> is_line_terminator c) body"
    define rest where "rest = dropWhile (\<lambda>c. \<not> is_line_terminator c) body"
    define out where "out = replace_heading marker open_tag close_tag False rest"
    from True have mne: "marker \<noteq> []" by simp
    from True have "x # xs = marker @ body" unfolding body_def by (intro prefix_drop) simp
    moreover have "body = line @ rest" by (simp add: line_def rest_def)
    ultimately have whole: "x # xs = marker @ (line @ rest)" by simp
    have result: "replace_heading marker open_tag close_tag at_start (x # xs)
                    = open_tag @ line @ close_tag @ out"
      using True by (simp add: out_def rest_def line_def body_def)
    have cut: "occurrences p (line @ rest) \<le> occurrences p line + occurrences p rest"
    proof (cases rest)
      case Nil
      then show ?thesis by simp
    next
      case (Cons t r)
      then have "dropWhile (\<lambda>c. \<not> is_line_terminator c) body \<noteq> []" by (simp add: rest_def)
      then have "\<not> \<not> is_line_terminator (hd (dropWhile (\<lambda>c. \<not> is_line_terminator c) body))"
        by (rule hd_dropWhile)
      with Cons have "is_line_terminator t" by (simp add: rest_def)
      then have t: "t \<notin> set p" by (rule lt)
      have "occurrences p (line @ t # r) \<le> occurrences p line + occurrences p r"
        by (rule occurrences_barrier [OF p t])
      moreover have "occurrences p (t # r) = occurrences p r"
        using occurrences_skip [OF p, of "[t]" r] t by simp
      ultimately show ?thesis using Cons by simp
    qed
    have "occurrences p (pre @ x # xs) = occurrences p (pre @ marker @ (line @ rest))"
      using whole by simp
    also have "\<dots> \<le> occurrences p pre + occurrences p (line @ rest)"
      by (rule occurrences_barrier_list [OF p mne disj])
    also have "\<dots> \<le> occurrences p pre + (occurrences p line + occurrences p rest)"
      using cut by simp
    also have "\<dots> \<le> occurrences p pre + (occurrences p line + occurrences p out)"
      using "2.IH"(1) [OF True p disj lt, where pre = "[]"]
      by (simp add: out_def rest_def body_def)
    also have "\<dots> \<le> occurrences p pre + (occurrences p line + occurrences p (close_tag @ out))"
      using occurrences_append_ge [of p close_tag out] by simp
    also have "\<dots> \<le> occurrences p pre + occurrences p (line @ close_tag @ out)"
      using occurrences_append_ge [of p line "close_tag @ out"] by simp
    also have "\<dots> \<le> occurrences p pre + occurrences p (open_tag @ line @ close_tag @ out)"
      using occurrences_append_ge [of p open_tag "line @ close_tag @ out"] by simp
    also have "\<dots> \<le> occurrences p (pre @ open_tag @ line @ close_tag @ out)"
      by (rule occurrences_append_ge)
    finally show ?thesis by (simp only: result)
  qed
qed

lemma br_units: "js ''<br/>'' = [0x3C, 0x62, 0x72, 0x2F, 0x3E]"
  by (simp add: js_def)

lemma occurrences_br_self: "occurrences (js ''<br/>'') (js ''<br/>'') = 1"
  by (simp add: br_units)

lemma occurrences_replace_newlines:
  "count_list s 0x000A \<le> occurrences (js ''<br/>'') (replace_newlines s)"
proof (induction s)
  case Nil
  then show ?case by (simp add: replace_newlines_def)
next
  case (Cons x s)
  have unfold: "replace_newlines (x # s) = (if x = 0x000A then js ''<br/>'' else [x]) @ replace_newlines s"
    by (simp add: replace_newlines_def)
  show ?case
  proof (cases "x = 0x000A")
    case True
    have "count_list (x # s) 0x000A = 1 + count_list s 0x000A" using True by simp
    also have "\<dots> \<le> occurrences (js ''<br/>'') (js ''<br/>'') + occurrences (js ''<br/>'') (replace_newlines s)"
      using Cons.IH by (simp only: occurrences_br_self add_le_cancel_left)
    also have "\<dots> \<le> occurrences (js ''<br/>'') (js ''<br/>'' @ replace_newlines s)"
      by (rule occurrences_append_ge)
    finally show ?thesis using True unfold by simp
  next
    case False
    have "count_list (x # s) 0x000A = count_list s 0x000A" using False by simp
    also have "\<dots> \<le> occurrences (js ''<br/>'') [x] + occurrences (js ''<br/>'') (replace_newlines s)"
      using Cons.IH by simp
    also have "\<dots> \<le> occurrences (js ''<br/>'') ([x] @ replace_newlines s)"
      by (rule occurrences_append_ge)
    finally show ?thesis using False unfold by simp
  qed
qed

lemma br_no_star: "set (js ''*'') \<inter> set (js ''<br/>'') = {}" "set (js ''**'') \<inter> set (js ''<br/>'') = {}"
  by (simp_all add: js_def)

lemma br_no_marker:
  "set (js ''# '') \<inter> set (js ''<br/>'') = {}"
  "set (js ''## '') \<inter> set (js ''<br/>'') = {}"
  "set (js ''### '') \<inter> set (js ''<br/>'') = {}"
  by (simp_all add: js_def)

lemma br_no_line_terminator: "is_line_terminator t \<Longrightarrow> t \<notin> set (js ''<br/>'')"
  by (auto simp: is_line_terminator_def js_def)

lemma br_nonempty: "js ''<br/>'' \<noteq> []" by (simp add: js_def)

lemma line_breaks_kept:
  "count_list s 0x000A \<le> occurrences (js ''<br/>'') (formatMarkdownForDisplay s)"
proof -
  let ?br = "js ''<br/>''"
  let ?s1 = "replace_newlines s"
  let ?s2 = "replace_delimited (js ''**'') (js ''<strong>'') (js ''</strong>'') ?s1"
  let ?s3 = "replace_delimited (js ''*'') (js ''<em>'') (js ''</em>'') ?s2"
  let ?s4 = "replace_heading (js ''# '') (js ''<h1>'') (js ''</h1>'') True ?s3"
  let ?s5 = "replace_heading (js ''## '') (js ''<h2>'') (js ''</h2>'') True ?s4"
  let ?s6 = "replace_heading (js ''### '') (js ''<h3>'') (js ''</h3>'') True ?s5"
  have "count_list s 0x000A \<le> occurrences ?br ?s1" by (rule occurrences_replace_newlines)
  also have "\<dots> \<le> occurrences ?br ?s2"
    using occurrences_replace_delimited [OF br_nonempty br_no_star(2), where pre = "[]"] by simp
  also have "\<dots> \<le> occurrences ?br ?s3"
    using occurrences_replace_delimited [OF br_nonempty br_no_star(1), where pre = "[]"] by simp
  also have "\<dots> \<le> occurrences ?br ?s4"
    using occurrences_replace_heading [OF br_nonempty br_no_marker(1) br_no_line_terminator, where pre = "[]"] by simp
  also have "\<dots> \<le> occurrences ?br ?s5"
    using occurrences_replace_heading [OF br_nonempty br_no_marker(2) br_no_line_terminator, where pre = "[]"] by simp
  also have "\<dots> \<le> occurrences ?br ?s6"
    using occurrences_replace_heading [OF br_nonempty br_no_marker(3) br_no_line_terminator, where pre = "[]"] by simp
  finally show ?thesis by (simp add: formatMarkdownForDisplay_def)
qed

subsection \<open>The substitutions add no newline\<close>

lemma set_replace_newlines: "0x000A \<notin> set (replace_newlines s)"
  by (induction s) (auto simp: replace_newlines_def js_def)

lemma set_replace_delimited:
  "set (replace_delimited d open_tag close_tag s) \<subseteq> set s \<union> set open_tag \<union> set close_tag"
proof (induction d open_tag close_tag s rule: replace_delimited.induct)
  case (1 d open_tag close_tag)
  then show ?case by simp
next
  case (2 d open_tag close_tag x xs)
  show ?case
  proof (cases "d \<noteq> [] \<and> prefix d (x # xs)")
    case False
    with "2.IH"(3) show ?thesis by auto
  next
    case True
    show ?thesis
    proof (cases "find_close d (drop (length d) (x # xs))")
      case None
      with True "2.IH"(1) show ?thesis by auto
    next
      case (Some cr)
      obtain captured rest where cr: "cr = (captured, rest)" by (cases cr)
      from Some cr have "drop (length d) (x # xs) = captured @ d @ rest"
        by (simp add: find_close_split)
      then have "set captured \<union> set rest \<subseteq> set (drop (length d) (x # xs))" by auto
      also have "\<dots> \<subseteq> set (x # xs)" by (rule set_drop_subset)
      finally have sub: "set captured \<union> set rest \<subseteq> set (x # xs)" .
      have "set (replace_delimited d open_tag close_tag rest) \<subseteq> set rest \<union> set open_tag \<union> set close_tag"
        by (rule "2.IH"(2) [OF True Some cr [symmetric]])
      with sub have "set (open_tag @ captured @ close_tag @ replace_delimited d open_tag close_tag rest)
                      \<subseteq> set (x # xs) \<union> set open_tag \<union> set close_tag"
        by auto
      then show ?thesis using True Some cr by simp
    qed
  qed
qed

lemma set_replace_heading:
  "set (replace_heading marker open_tag close_tag at_start s) \<subseteq> set s \<union> set open_tag \<union> set close_tag"
proof (induction marker open_tag close_tag at_start s rule: replace_heading.induct)
  case (1 marker open_tag close_tag at_start)
  then show ?case by simp
next
  case (2 marker open_tag close_tag at_start x xs)
  show ?case
  proof (cases "at_start \<and> marker \<noteq> [] \<and> prefix marker (x # xs)")
    case False
    with "2.IH"(2) show ?thesis by auto
  next
    case True
    define body where "body = drop (length marker) (x # xs)"
    define line where "line = takeWhile (\<lambda>c. \<not> is_line_terminator c) body"
    define rest where "rest = dropWhile (\<lambda>c. \<not> is_line_terminator c) body"
    define out where "out = replace_heading marker open_tag close_tag False rest"
    have "body = line @ rest" by (simp add: line_def rest_def)
    then have "set line \<union> set rest \<subseteq> set body" by auto
    also have "\<dots> \<subseteq> set (x # xs)" unfolding body_def by (rule set_drop_subset)
    finally have sub: "set line \<union> set rest \<subseteq> set (x # xs)" .
    have "set out \<subseteq> set rest \<union> set open_tag \<union> set close_tag"
      using "2.IH"(1) [OF True] by (simp add: out_def rest_def body_def)
    with sub have "set (open_tag @ line @ close_tag @ out) \<subseteq> set (x # xs) \<union> set open_tag \<union> set close_tag"
      by auto
    moreover have "replace_heading marker open_tag close_tag at_start (x # xs)
                    = open_tag @ line @ close_tag @ out"
      using True by (simp add: out_def rest_def line_def body_def)
    ultimately show ?thesis by (simp only:)
  qed
qed

lemma tags_no_newline:
  "0x000A \<notin> set (js ''<strong>'') \<union> set (js ''</strong>'')"
  "0x000A \<notin> set (js ''<em>'') \<union> set (js ''</em>'')"
  "0x000A \<notin> set (js ''<h1>'') \<union> set (js ''</h1>'')"
  "0x000A \<notin> set (js ''<h2>'') \<union> set (js ''</h2>'')"
  "0x000A \<notin> set (js ''<h3>'') \<union> set (js ''</h3>'')"
  by (simp_all add: js_def)

lemma no_newline_left: "0x000A \<notin> set (formatMarkdownForDisplay s)"
proof -
  let ?s1 = "replace_newlines s"
  let ?s2 = "replace_delimited (js ''**'') (js ''<strong>'') (js ''</strong>'') ?s1"
  let ?s3 = "replace_delimited (js ''*'') (js ''<em>'') (js ''</em>'') ?s2"
  let ?s4 = "replace_heading (js ''# '') (js ''<h1>'') (js ''</h1>'') True ?s3"
  let ?s5 = "replace_heading (js ''## '') (js ''<h2>'') (js ''</h2>'') True ?s4"
  let ?s6 = "replace_heading (js ''### '') (js ''<h3>'') (js ''</h3>'') True ?s5"
  have 1: "0x000A \<notin> set ?s1" by (rule set_replace_newlines)
  have 2: "0x000A \<notin> set ?s2"
    using 1 tags_no_newline(1) set_replace_delimited [of "js ''**''" "js ''<strong>''" "js ''</strong>''" ?s1]
    by blast
  have 3: "0x000A \<notin> set ?s3"
    using 2 tags_no_newline(2) set_replace_delimited [of "js ''*''" "js ''<em>''" "js ''</em>''" ?s2]
    by blast
  have 4: "0x000A \<notin> set ?s4"
    using 3 tags_no_newline(3) set_replace_heading [of "js ''# ''" "js ''<h1>''" "js ''</h1>''" True ?s3]
    by blast
  have 5: "0x000A \<notin> set ?s5"
    using 4 tags_no_newline(4) set_replace_heading [of "js ''## ''" "js ''<h2>''" "js ''</h2>''" True ?s4]
    by blast
  have 6: "0x000A \<notin> set ?s6"
    using 5 tags_no_newline(5) set_replace_heading [of "js ''### ''" "js ''<h3>''" "js ''</h3>''" True ?s5]
    by blast
  then show ?thesis by (simp add: formatMarkdownForDisplay_def)
qed

subsection \<open>The formatter\<close>

lemma format_bold_example: "formatMarkdownForDisplay (js ''**bold**'') = js ''<strong>bold</strong>''"
  by code_simp
lemma format_heading_example: "formatMarkdownForDisplay (js ''# Title'') = js ''<h1>Title</h1>''"
  by code_simp

text \<open>
  C6. The formatter is the rule table newline, bold, italic, heading 1, heading 2,
  heading 3 applied in that order. For the input \<^verbatim>\<open>**bold**\<close> the output is
  \<^verbatim>\<open><strong>bold</strong>\<close> and for \<^verbatim>\<open># Title\<close> it is \<^verbatim>\<open><h1>Title</h1>\<close>.
  For every input the output holds at least one \<^verbatim>\<open><br/>\<close> tag for each newline of
  the input, and no newline is left in it.
\<close>

theorem formatMarkdownForDisplay_rule_table:
  "formatMarkdownForDisplay s = apply_rules markdown_rules s \<and>
   formatMarkdownForDisplay (js ''**bold**'') = js ''<strong>bold</strong>'' \<and>
   sublist (js ''<strong>bold</strong>'') (formatMarkdownForDisplay (js ''**bold**'')) \<and>
   formatMarkdownForDisplay (js ''# Title'') = js ''<h1>Title</h1>'' \<and>
   sublist (js ''<h1>Title</h1>'') (formatMarkdownForDisplay (js ''# Title'')) \<and>
   count_list s 0x000A \<le> occurrences (js ''<br/>'') (formatMarkdownForDisplay s) \<and>
   0x000A \<notin> set (formatMarkdownForDisplay s)"
proof -
  have "formatMarkdownForDisplay s = apply_rules markdown_rules s"
    by (simp add: formatMarkdownForDisplay_def apply_rules_def markdown_rules_def)
  moreover have "sublist (js ''<strong>bold</strong>'') (formatMarkdownForDisplay (js ''**bold**''))"
    by (simp add: format_bold_example)
  moreover have "sublist (js ''<h1>Title</h1>'') (formatMarkdownForDisplay (js ''# Title''))"
    by (simp add: format_heading_example)
  ultimately show ?thesis
    using format_bold_example format_heading_example line_breaks_kept [of s] no_newline_left [of s]
    by blast
qed

theorem formatMarkdownForDisplay_rule_table_witness:
  "formatMarkdownForDisplay (js ''a\<newline>b'') = apply_rules markdown_rules (js ''a\<newline>b'') \<and>
   count_list (js ''a\<newline>b'') 0x000A = 1 \<and>
   1 \<le> occurrences (js ''<br/>'') (formatMarkdownForDisplay (js ''a\<newline>b'')) \<and>
   0x000A \<notin> set (formatMarkdownForDisplay (js ''a\<newline>b''))"
proof -
  have one: "count_list (js ''a\<newline>b'') 0x000A = 1"
    by (simp add: js_def)
  from formatMarkdownForDisplay_rule_table [of "js ''a\<newline>b''"]
  have "formatMarkdownForDisplay (js ''a\<newline>b'') = apply_rules markdown_rules (js ''a\<newline>b'')"
    and "count_list (js ''a\<newline>b'') 0x000A
           \<le> occurrences (js ''<br/>'') (formatMarkdownForDisplay (js ''a\<newline>b''))"
    and "0x000A \<notin> set (formatMarkdownForDisplay (js ''a\<newline>b''))"
    by blast+
  with one show ?thesis by (simp only: simp_thms)
qed

subsection \<open>Sample data, copy and download\<close>


lemma sampleRawText_nonempty: "sampleRawText \<noteq> []"
  by (simp add: sampleRawText_def js_def)

lemma tab_names: "js ''raw'' \<noteq> js ''markdown''"
  by (simp add: js_def)

lemma file_names: "js ''output.'' @ js ''md'' = js ''output.md''" "js ''output.'' @ js ''txt'' = js ''output.txt''"
  by (simp_all add: js_def)

text \<open>
  C3, as stated, fails: with a parse result whose raw text is the empty string, the
  download from the raw-text tab is \<^verbatim>\<open>output.txt\<close> holding the sample text, not the
  raw text of the result.
\<close>

theorem download_empty_raw_text:
  "download_click
     \<lparr>prop_hasOutput = True, prop_isLoading = False,
      prop_outputData = Some \<lparr>markdown = js ''# Title'', rawText = []\<rparr>,
      prop_metadata = None\<rparr> (js ''raw'')
     = Some \<lparr>download_name = js ''output.txt'', blob_parts = [sampleRawText],
             blob_type = js ''text/plain''\<rparr> \<and>
   sampleRawText \<noteq> rawText \<lparr>markdown = js ''# Title'', rawText = []\<rparr>"
  using sampleRawText_nonempty
  by (simp add: download_click_def rawTextContent_def handleDownload_def tab_names file_names)

text \<open>
  C3, amended. For every output state in which the buttons are rendered and there is a
  parse result: when its raw text is not empty, the download from the raw-text tab is a
  file named \<^verbatim>\<open>output.txt\<close> whose one part is exactly that raw text; when its
  markdown is not empty, the download from the markdown tab is \<^verbatim>\<open>output.md\<close> with
  exactly that markdown.
\<close>

theorem download_active_tab:
  assumes "prop_hasOutput p \<or> prop_isLoading p" and "prop_outputData p = Some d"
  shows "(rawText d \<noteq> [] \<longrightarrow>
            download_click p (js ''raw'') =
              Some \<lparr>download_name = js ''output.txt'', blob_parts = [rawText d],
                    blob_type = js ''text/plain''\<rparr>) \<and>
         (markdown d \<noteq> [] \<longrightarrow>
            download_click p (js ''markdown'') =
              Some \<lparr>download_name = js ''output.md'', blob_parts = [markdown d],
                    blob_type = js ''text/plain''\<rparr>)"
  using assms
  by (auto simp: download_click_def rawTextContent_def markdownContent_def handleDownload_def
      tab_names file_names)

theorem download_active_tab_witness:
  "download_click
     \<lparr>prop_hasOutput = True, prop_isLoading = False,
      prop_outputData = Some \<lparr>markdown = js ''# Title'', rawText = js ''Title''\<rparr>,
      prop_metadata = None\<rparr> (js ''raw'')
     = Some \<lparr>download_name = js ''output.txt'', blob_parts = [js ''Title''],
             blob_type = js ''text/plain''\<rparr> \<and>
   download_click
     \<lparr>prop_hasOutput = True, prop_isLoading = False,
      prop_outputData = Some \<lparr>markdown = js ''# Title'', rawText = js ''Title''\<rparr>,
      prop_metadata = None\<rparr> (js ''markdown'')
     = Some \<lparr>download_name = js ''output.md'', blob_parts = [js ''# Title''],
             blob_type = js ''text/plain''\<rparr>"
  using download_active_tab [of
      "\<lparr>prop_hasOutput = True, prop_isLoading = False,
        prop_outputData = Some \<lparr>markdown = js ''# Title'', rawText = js ''Title''\<rparr>,
        prop_metadata = None\<rparr>"
      "\<lparr>markdown = js ''# Title'', rawText = js ''Title''\<rparr>"]
  by (simp add: js_def)



section \<open>Document preview: properties\<close>

subsection \<open>Object URLs\<close>

text \<open>
  The invariant of a mounted component: the live object URLs are exactly the one its
  pending clean-up will revoke, if there is one; and every live URL is older than the next
  one to be created.
\<close>

lemma preview_effect_urls:
  assumes "cleanup c = None" and "live_urls (urls c) = []"
  shows "live_urls (urls (preview_effect f c)) =
           (case cleanup (preview_effect f c) of None \<Rightarrow> [] | Some u \<Rightarrow> [u])"
  using assms
  by (auto simp: preview_effect_def createObjectURL_def split: option.splits)

lemma run_cleanup_urls:
  assumes "live_urls (urls c) = (case cleanup c of None \<Rightarrow> [] | Some u \<Rightarrow> [u])"
  shows "cleanup (run_cleanup c) = None \<and> live_urls (urls (run_cleanup c)) = []"
  using assms
  by (auto simp: run_cleanup_def revokeObjectURL_def split: option.splits)

lemma mount_urls:
  "live_urls (urls (mount f)) = (case cleanup (mount f) of None \<Rightarrow> [] | Some u \<Rightarrow> [u])"
  unfolding mount_def by (rule preview_effect_urls) simp_all

lemma rerender_urls:
  assumes "live_urls (urls c) = (case cleanup c of None \<Rightarrow> [] | Some u \<Rightarrow> [u])"
  shows "live_urls (urls (rerender f c)) =
           (case cleanup (rerender f c) of None \<Rightarrow> [] | Some u \<Rightarrow> [u])"
proof (cases "f = rendered_file c")
  case True
  with assms show ?thesis by (simp add: rerender_def)
next
  case False
  from run_cleanup_urls [OF assms]
  have "cleanup ((run_cleanup c)\<lparr>rendered_file := f\<rparr>) = None"
    and "live_urls (urls ((run_cleanup c)\<lparr>rendered_file := f\<rparr>)) = []"
    by simp_all
  from preview_effect_urls [OF this] show ?thesis using False by (simp add: rerender_def)
qed

lemma reader_onload_urls:
  "urls (reader_onload r c) = urls c \<and> cleanup (reader_onload r c) = cleanup c"
  by (simp add: reader_onload_def)

lemma preview_step_urls:
  assumes "live_urls (urls c) = (case cleanup c of None \<Rightarrow> [] | Some u \<Rightarrow> [u])"
  shows "live_urls (urls (preview_step e c)) =
           (case cleanup (preview_step e c) of None \<Rightarrow> [] | Some u \<Rightarrow> [u])"
proof (cases e)
  case (FileProp f)
  with rerender_urls [OF assms] show ?thesis by simp
next
  case (ReaderLoad r)
  with assms reader_onload_urls [of r c] show ?thesis by simp
qed

lemma fold_preview_step_urls:
  "live_urls (urls c) = (case cleanup c of None \<Rightarrow> [] | Some u \<Rightarrow> [u]) \<Longrightarrow>
   live_urls (urls (fold preview_step events c)) =
     (case cleanup (fold preview_step events c) of None \<Rightarrow> [] | Some u \<Rightarrow> [u])"
proof (induction events arbitrary: c)
  case Nil
  then show ?case by simp
next
  case (Cons e events)
  from Cons.IH [OF preview_step_urls [OF Cons.prems]] show ?case by simp
qed

lemma rerender_releases:
  assumes "live_urls (urls c) = (case cleanup c of None \<Rightarrow> [] | Some u \<Rightarrow> [u])"
    and "\<forall>u \<in> set (live_urls (urls c)). u < next_url (urls c)"
    and "f \<noteq> rendered_file c"
  shows "set (live_urls (urls c)) \<inter> set (live_urls (urls (rerender f c))) = {}"
  using assms
  by (auto simp: rerender_def run_cleanup_def revokeObjectURL_def preview_effect_def
      createObjectURL_def split: option.splits if_splits)

lemma preview_effect_fresh:
  assumes "\<forall>u \<in> set (live_urls (urls c)). u < next_url (urls c)"
  shows "\<forall>u \<in> set (live_urls (urls (preview_effect f c))). u < next_url (urls (preview_effect f c))"
  using assms
  by (auto simp: preview_effect_def createObjectURL_def split: option.splits)

lemma preview_step_fresh:
  assumes "\<forall>u \<in> set (live_urls (urls c)). u < next_url (urls c)"
  shows "\<forall>u \<in> set (live_urls (urls (preview_step e c))). u < next_url (urls (preview_step e c))"
proof (cases e)
  case (FileProp f)
  have "\<forall>u \<in> set (live_urls (urls ((run_cleanup c)\<lparr>rendered_file := f\<rparr>))).
          u < next_url (urls ((run_cleanup c)\<lparr>rendered_file := f\<rparr>))"
    using assms by (auto simp: run_cleanup_def revokeObjectURL_def split: option.splits)
  from preview_effect_fresh [OF this] assms FileProp show ?thesis
    by (simp add: rerender_def)
next
  case (ReaderLoad r)
  with assms reader_onload_urls [of r c] show ?thesis by simp
qed

lemma fold_preview_step_fresh:
  "\<forall>u \<in> set (live_urls (urls c)). u < next_url (urls c) \<Longrightarrow>
   \<forall>u \<in> set (live_urls (urls (fold preview_step events c))).
     u < next_url (urls (fold preview_step events c))"
proof (induction events arbitrary: c)
  case Nil
  then show ?case by simp
next
  case (Cons e events)
  from Cons.IH [OF preview_step_fresh [OF Cons.prems]] show ?case by simp
qed

lemma mount_fresh: "\<forall>u \<in> set (live_urls (urls (mount f))). u < next_url (urls (mount f))"
  unfolding mount_def by (rule preview_effect_fresh) simp


text \<open>
  C8. For every initial file and every sequence of later renders (file selections, with
  reader completions anywhere between them): at most one object URL of the component is
  live, namely the one the pending clean-up revokes; unmounting leaves none live; and a
  render with a changed file releases every URL that was live before it.
\<close>

theorem preview_urls_released:
  "length (live_urls (urls (fold preview_step events (mount f)))) \<le> 1 \<and>
   live_urls (urls (fold preview_step events (mount f))) =
     (case cleanup (fold preview_step events (mount f)) of None \<Rightarrow> [] | Some u \<Rightarrow> [u]) \<and>
   live_urls (urls (unmount (fold preview_step events (mount f)))) = [] \<and>
   (g \<noteq> rendered_file (fold preview_step events (mount f)) \<longrightarrow>
      set (live_urls (urls (fold preview_step events (mount f)))) \<inter>
      set (live_urls (urls (rerender g (fold preview_step events (mount f))))) = {})"
proof -
  let ?c = "fold preview_step events (mount f)"
  have inv: "live_urls (urls ?c) = (case cleanup ?c of None \<Rightarrow> [] | Some u \<Rightarrow> [u])"
    by (rule fold_preview_step_urls [OF mount_urls])
  have fresh: "\<forall>u \<in> set (live_urls (urls ?c)). u < next_url (urls ?c)"
    by (rule fold_preview_step_fresh [OF mount_fresh])
  have "length (live_urls (urls ?c)) \<le> 1"
    using inv by (simp split: option.splits)
  moreover have "live_urls (urls (unmount ?c)) = []"
    using run_cleanup_urls [OF inv] by (simp add: unmount_def)
  moreover have "g \<noteq> rendered_file ?c \<longrightarrow>
      set (live_urls (urls ?c)) \<inter> set (live_urls (urls (rerender g ?c))) = {}"
    using rerender_releases [OF inv fresh] by blast
  ultimately show ?thesis using inv by blast
qed

theorem preview_urls_released_witness:
  "live_urls (urls (fold preview_step
      [FileProp (Some \<lparr>file_ident = 1, file_name = js ''a.pdf'', file_size = 2048, file_type = js ''application/pdf''\<rparr>),
       FileProp (Some \<lparr>file_ident = 2, file_name = js ''b.pdf'', file_size = 4096, file_type = js ''application/pdf''\<rparr>),
       FileProp (Some \<lparr>file_ident = 3, file_name = js ''c.pdf'', file_size = 1024, file_type = js ''application/pdf''\<rparr>)]
      (mount None))) = [2] \<and>
   next_url (urls (fold preview_step
      [FileProp (Some \<lparr>file_ident = 1, file_name = js ''a.pdf'', file_size = 2048, file_type = js ''application/pdf''\<rparr>),
       FileProp (Some \<lparr>file_ident = 2, file_name = js ''b.pdf'', file_size = 4096, file_type = js ''application/pdf''\<rparr>),
       FileProp (Some \<lparr>file_ident = 3, file_name = js ''c.pdf'', file_size = 1024, file_type = js ''application/pdf''\<rparr>)]
      (mount None))) = 3 \<and>
   live_urls (urls (unmount (fold preview_step
      [FileProp (Some \<lparr>file_ident = 1, file_name = js ''a.pdf'', file_size = 2048, file_type = js ''application/pdf''\<rparr>),
       FileProp (Some \<lparr>file_ident = 2, file_name = js ''b.pdf'', file_size = 4096, file_type = js ''application/pdf''\<rparr>),
       FileProp (Some \<lparr>file_ident = 3, file_name = js ''c.pdf'', file_size = 1024, file_type = js ''application/pdf''\<rparr>)]
      (mount None)))) = [] \<and>
   live_urls (urls (rerender None (fold preview_step
      [FileProp (Some \<lparr>file_ident = 1, file_name = js ''a.pdf'', file_size = 2048, file_type = js ''application/pdf''\<rparr>),
       FileProp (Some \<lparr>file_ident = 2, file_name = js ''b.pdf'', file_size = 4096, file_type = js ''application/pdf''\<rparr>),
       FileProp (Some \<lparr>file_ident = 3, file_name = js ''c.pdf'', file_size = 1024, file_type = js ''application/pdf''\<rparr>)]
      (mount None)))) = []"
  using preview_urls_released [of
      "[FileProp (Some \<lparr>file_ident = 1, file_name = js ''a.pdf'', file_size = 2048, file_type = js ''application/pdf''\<rparr>),
        FileProp (Some \<lparr>file_ident = 2, file_name = js ''b.pdf'', file_size = 4096, file_type = js ''application/pdf''\<rparr>),
        FileProp (Some \<lparr>file_ident = 3, file_name = js ''c.pdf'', file_size = 1024, file_type = js ''application/pdf''\<rparr>)]"
      None None]
  by (simp add: mount_def rerender_def unmount_def run_cleanup_def preview_effect_def
      createObjectURL_def revokeObjectURL_def)

subsection \<open>Files that are neither PDF nor image\<close>

lemma size_kb_12: "size_kb 12 = js ''0.0''"
  by code_simp

lemma seven_not_in_sample: "(0x37 :: unit16) \<notin> set sampleContent"
  by (simp add: sampleContent_def js_def)

lemma other_type_body:
  assumes "file_type file \<noteq> js ''application/pdf''" and "\<not> prefix (js ''image/'') (file_type file)"
  shows "body (DocumentPreview (Some file) False c) = PreText sampleContent"
  using assms by (simp add: DocumentPreview_def fallback_text_def split: option.splits)

lemma other_type_effect:
  assumes "file_type file \<noteq> js ''application/pdf''" and "\<not> prefix (js ''image/'') (file_type file)"
  shows "preview (mount (Some file)) = Some (js ''File: '' @ file_name file) \<and>
         fileURL (mount (Some file)) = None \<and> live_urls (urls (mount (Some file))) = []"
  using assms by (simp add: mount_def preview_effect_def)

lemma name_not_in_sample: "\<not> sublist (js ''page7.txt'') sampleContent"
proof
  assume "sublist (js ''page7.txt'') sampleContent"
  then have "set (js ''page7.txt'') \<subseteq> set sampleContent" by (rule set_mono_sublist)
  moreover have "0x37 \<in> set (js ''page7.txt'')" by (simp add: js_def)
  ultimately have "(0x37 :: unit16) \<in> set sampleContent" by blast
  with seven_not_in_sample show False by simp
qed


text \<open>
  C2, evaluated at a text file \<^verbatim>\<open>page7.txt\<close> of type \<^verbatim>\<open>text/plain\<close>. The effect
  stores the placeholder \<^verbatim>\<open>File: page7.txt\<close> in \<open>preview\<close>, but the render does not
  read \<open>preview\<close> for such a file: the body it shows is the fixed sample text, in which
  the file's name does not occur. The name is shown in the header line only.
\<close>

theorem preview_other_type_shows_sample:
  "preview (mount (Some \<lparr>file_ident = 0, file_name = js ''page7.txt'', file_size = 12,
                          file_type = js ''text/plain''\<rparr>)) = Some (js ''File: page7.txt'') \<and>
   DocumentPreview
     (Some \<lparr>file_ident = 0, file_name = js ''page7.txt'', file_size = 12, file_type = js ''text/plain''\<rparr>)
     False
     (mount (Some \<lparr>file_ident = 0, file_name = js ''page7.txt'', file_size = 12,
                    file_type = js ''text/plain''\<rparr>))
     = Preview (js ''page7.txt'' @ [0x0020, 0x2022, 0x0020] @ js ''0.0 KB'') (PreText sampleContent) \<and>
   \<not> sublist (js ''page7.txt'') sampleContent"
proof -
  let ?file = "\<lparr>file_ident = 0, file_name = js ''page7.txt'', file_size = 12, file_type = js ''text/plain''\<rparr>"
  have ty: "file_type ?file \<noteq> js ''application/pdf''" "\<not> prefix (js ''image/'') (file_type ?file)"
    by (simp_all add: js_def)
  have "preview (mount (Some ?file)) = Some (js ''File: page7.txt'')"
    using other_type_effect [OF ty] by (simp add: js_def)
  moreover have "DocumentPreview (Some ?file) False (mount (Some ?file))
      = Preview (js ''page7.txt'' @ [0x0020, 0x2022, 0x0020] @ js ''0.0 KB'') (PreText sampleContent)"
    using ty by (simp add: DocumentPreview_def fallback_text_def size_kb_12 js_def split: option.splits)
  ultimately show ?thesis using name_not_in_sample by blast
qed
end
